theory Spec2Isabelle
  imports Main "HOL-Library.AList" "HOL-Library.Char_ord" "HOL-Library.List_Lexorder"
begin

section \<open>Values exchanged with the oracle\<close>

text \<open>
  The orchestrator of \<^verbatim>\<open>orchestrator.py\<close> reads the oracle's structured answers with
  \<^verbatim>\<open>json.loads\<close>. The values it can get are modelled by \<open>json\<close>; a JSON object is an
  association list with distinct keys, a JSON number is an integer (numbers with a fraction
  or an exponent are floating point in Python and are not part of this model).
  Exceptions that no handler of \<^verbatim>\<open>run_chat\<close> catches are values of \<open>error\<close>.
\<close>

datatype json =
    JNull
  | JBool bool
  | JInt int
  | JStr string
  | JList "json list"
  | JObj "(string \<times> json) list"

datatype error = KeyError | TypeError | UnboundLocalError | IndexError

text \<open>\<^verbatim>\<open>d[k]\<close> with a string key: only a dict can be subscripted by a string.\<close>

fun getitem :: "json \<Rightarrow> string \<Rightarrow> error + json" where
  "getitem (JObj kvs) k = (case map_of kvs k of None \<Rightarrow> Inl KeyError | Some v \<Rightarrow> Inr v)"
| "getitem _ k = Inl TypeError"

text \<open>\<^verbatim>\<open>d[k] = v\<close> with a string key.\<close>

fun setitem :: "json \<Rightarrow> string \<Rightarrow> json \<Rightarrow> error + json" where
  "setitem (JObj kvs) k v = Inr (JObj (AList.update k v kvs))"
| "setitem _ k v = Inl TypeError"

text \<open>\<^verbatim>\<open>data[k]["answer"]\<close>, the access path of every judged field.\<close>

definition answer :: "json \<Rightarrow> string \<Rightarrow> error + json" where
  "answer data k = (case getitem data k of Inl e \<Rightarrow> Inl e | Inr d \<Rightarrow> getitem d ''answer'')"

text \<open>Python's truth value of an object, as \<^verbatim>\<open>if x:\<close> tests it.\<close>

fun truthy :: "json \<Rightarrow> bool" where
  "truthy JNull = False"
| "truthy (JBool b) = b"
| "truthy (JInt i) = (i \<noteq> 0)"
| "truthy (JStr s) = (s \<noteq> [])"
| "truthy (JList xs) = (xs \<noteq> [])"
| "truthy (JObj kvs) = (kvs \<noteq> [])"

text \<open>
  Python's comparisons. \<^verbatim>\<open>bool\<close> is a subclass of \<^verbatim>\<open>int\<close>, so booleans compare as 0 and 1;
  strings and lists compare lexicographically; every other pairing raises \<^verbatim>\<open>TypeError\<close>
  under \<^verbatim>\<open>>\<close> and \<^verbatim>\<open>>=\<close> and is unequal under \<^verbatim>\<open>==\<close>.
\<close>

fun num_of :: "json \<Rightarrow> int option" where
  "num_of (JInt i) = Some i"
| "num_of (JBool b) = Some (if b then 1 else 0)"
| "num_of _ = None"

fun py_eq :: "json \<Rightarrow> json \<Rightarrow> bool" and py_eq_list :: "json list \<Rightarrow> json list \<Rightarrow> bool" where
  "py_eq JNull JNull = True"
| "py_eq (JStr s) (JStr t) = (s = t)"
| "py_eq (JList xs) (JList ys) = py_eq_list xs ys"
| "py_eq (JObj xs) (JObj ys) =
     (length xs = length ys \<and>
      list_all (\<lambda>(k, v). case map_of ys k of None \<Rightarrow> False | Some w \<Rightarrow> py_eq v w) xs)"
| "py_eq a b = (case (num_of a, num_of b) of (Some i, Some j) \<Rightarrow> i = j | _ \<Rightarrow> False)"
| "py_eq_list [] [] = True"
| "py_eq_list (x # xs) (y # ys) = (py_eq x y \<and> py_eq_list xs ys)"
| "py_eq_list _ _ = False"

datatype cmp_op = GT | GE

definition cmp_int :: "cmp_op \<Rightarrow> int \<Rightarrow> int \<Rightarrow> bool" where
  "cmp_int c i j = (case c of GT \<Rightarrow> i > j | GE \<Rightarrow> i \<ge> j)"

definition cmp_str :: "cmp_op \<Rightarrow> string \<Rightarrow> string \<Rightarrow> bool" where
  "cmp_str c s t = (case c of GT \<Rightarrow> s > t | GE \<Rightarrow> s \<ge> t)"

fun py_cmp :: "cmp_op \<Rightarrow> json \<Rightarrow> json \<Rightarrow> error + bool"
  and py_cmp_list :: "cmp_op \<Rightarrow> json list \<Rightarrow> json list \<Rightarrow> error + bool" where
  "py_cmp c (JStr s) (JStr t) = Inr (cmp_str c s t)"
| "py_cmp c (JList xs) (JList ys) = py_cmp_list c xs ys"
| "py_cmp c a b =
     (case (num_of a, num_of b) of (Some i, Some j) \<Rightarrow> Inr (cmp_int c i j) | _ \<Rightarrow> Inl TypeError)"
| "py_cmp_list c [] [] = Inr (c = GE)"
| "py_cmp_list c [] (y # ys) = Inr False"
| "py_cmp_list c (x # xs) [] = Inr True"
| "py_cmp_list c (x # xs) (y # ys) =
     (if py_eq x y then py_cmp_list c xs ys else py_cmp c x y)"


section \<open>Team, messages and orchestrator state\<close>

text \<open>
  A worker of \<^verbatim>\<open>self._agents\<close>. The field \<open>code_execution_config\<close> holds the outcome of
  \<^verbatim>\<open>isinstance(a._code_execution_config, dict)\<close>, the only use the orchestrator makes of it.
  Workers are told apart by their position in the team list (object identity in Python).
\<close>

record agent =
  name :: string
  description :: string
  code_execution_config :: bool

text \<open>The dictionary built by \<^verbatim>\<open>save_checkpoint\<close>.\<close>

record checkpoint =
  cp_plan :: string
  evaluation :: json
  response :: json

text \<open>
  Message contents. The prompts of \<^verbatim>\<open>run_chat\<close> are f-strings; each is kept as the
  template's constructor applied to the values interpolated into it. \<open>Val\<close> is a value used
  as a content as it is (an instruction taken from the oracle's answer, a worker's reply,
  the incoming request).
\<close>

datatype content =
    Val json
  | ClosedBookPrompt content
  | PlanPrompt "agent list"
  | Briefing content "agent list" string string
  | FastStepPrompt content
  | NormalStepPrompt content "agent list"
  | RevisePlanPrompt json json string "agent list"
  | UpdatedPlan string
  | EducatedGuessPrompt string
  | NewFactsPrompt string
  | ReplanPrompt "checkpoint list" "agent list"

datatype role = User | Assistant

record message =
  role :: role
  content :: content
  mname :: string

text \<open>
  What the orchestrator does to the outside world, in order: a worker's \<^verbatim>\<open>reset()\<close>,
  \<^verbatim>\<open>self.send(message, a, request_reply=False, silent=...)\<close> to the worker at a position,
  \<^verbatim>\<open>a.generate_reply(sender=self)\<close>, the worker's \<^verbatim>\<open>a.send(reply, self, request_reply=False)\<close>,
  and \<^verbatim>\<open>self.client.create(messages=..., response_format=...)\<close> with the flag telling whether
  the JSON response format was requested. Console output (\<^verbatim>\<open>_print_thought\<close>) is not recorded.
\<close>

datatype event =
    Reset nat
  | Send message nat bool
  | Request nat
  | Echo message nat
  | Query "message list" bool

text \<open>
  The state threaded through \<^verbatim>\<open>run_chat\<close>: the two attributes of the object
  (\<open>checkpoints\<close>, \<open>orchestrated_messages\<close>), the local variables that live across turns,
  the number of oracle calls and of worker replies so far, and the trace of events.
  \<open>educated_guess_promt\<close> is \<open>None\<close> while the local variable of that name is unbound.
\<close>

record state =
  checkpoints :: "checkpoint list"
  orchestrated_messages :: "message list"
  facts :: string
  plan :: string
  total_turns :: nat
  times_stalled :: nat
  stalled_count :: int
  educated_guess_promt :: "content option"
  queries :: nat
  replies :: nat
  events :: "event list"

text \<open>
  What \<^verbatim>\<open>run_chat\<close> is given besides the oracle and the messages: the team, the two names, and
  three capabilities that are not code of this file: \<^verbatim>\<open>json.loads\<close> on the text of a
  response (\<open>None\<close> is \<^verbatim>\<open>JSONDecodeError\<close>, the one exception the code catches; no other
  failure of the parser is modelled), \<^verbatim>\<open>autogen.code_utils.extract_code\<close> (the list of (language, code)
  pairs of a content) and the workers' \<^verbatim>\<open>generate_reply\<close> (the reply of the worker at a
  position to the n-th request of the run). The oracle itself is a function from the number
  of earlier calls to the text extracted from its response, so every sequence of answers is
  covered, whatever the prompts.
\<close>

record env =
  agents :: "agent list"
  self_name :: string
  sender_name :: string
  loads :: "string \<Rightarrow> json option"
  extract_code :: "content \<Rightarrow> (string \<times> string) list"
  generate_reply :: "nat \<Rightarrow> nat \<Rightarrow> json"

type_synonym client = "nat \<Rightarrow> string"

text \<open>
  How a loop body ends: it goes on with a value, breaks (at the \<^verbatim>\<open>break\<close> statement of
  the given source line), returns or raises.
\<close>

datatype 'a flow =
    Go 'a state
  | Brk nat state
  | Ret state
  | Err error state

fun state_of :: "'a flow \<Rightarrow> state" where
  "state_of (Go x st) = st"
| "state_of (Brk l st) = st"
| "state_of (Ret st) = st"
| "state_of (Err e st) = st"

section \<open>Messaging\<close>

text \<open>
  \<^verbatim>\<open>_broadcast(message, out_loud, exclude)\<close>. Both lists hold either workers or values
  compared with worker names; \<^verbatim>\<open>a in xs or a.name in xs\<close> is \<open>listed\<close>. The copy \<^verbatim>\<open>m\<close> that
  the source makes is never sent, so it does not appear.
\<close>

datatype target = Ref nat | Named json

definition listed :: "nat \<Rightarrow> agent \<Rightarrow> target list \<Rightarrow> bool" where
  "listed i a xs = (List.member xs (Ref i) \<or> List.member xs (Named (JStr (name a))))"

fun sends :: "message \<Rightarrow> target list \<Rightarrow> target list \<Rightarrow> (nat \<times> agent) list \<Rightarrow> event list" where
  "sends m out_loud exclude [] = []"
| "sends m out_loud exclude ((i, a) # as) =
     (if listed i a exclude then sends m out_loud exclude as
      else if listed i a out_loud then Send m i False # sends m out_loud exclude as
      else Send m i True # sends m out_loud exclude as)"

definition broadcast :: "env \<Rightarrow> message \<Rightarrow> target list \<Rightarrow> target list \<Rightarrow> state \<Rightarrow> state" where
  "broadcast E m out_loud exclude st =
     st\<lparr>events := events st @ sends m out_loud exclude (enumerate 0 (agents E))\<rparr>"

text \<open>\<^verbatim>\<open>save_checkpoint(plan, evaluation, response)\<close>\<close>

definition save_checkpoint :: "string \<Rightarrow> json \<Rightarrow> json \<Rightarrow> state \<Rightarrow> state" where
  "save_checkpoint p e r st =
     st\<lparr>checkpoints := checkpoints st @ [\<lparr>cp_plan = p, evaluation = e, response = r\<rparr>]\<rparr>"

text \<open>
  One oracle call: \<^verbatim>\<open>self.client.create(messages=msgs, ...)\<close> followed by
  \<^verbatim>\<open>extract_text_or_completion_object(response)[0]\<close>.
\<close>

definition create :: "client \<Rightarrow> message list \<Rightarrow> bool \<Rightarrow> state \<Rightarrow> string \<times> state" where
  "create cl msgs json_format st =
     (cl (queries st),
      st\<lparr>queries := Suc (queries st), events := events st @ [Query msgs json_format]\<rparr>)"

text \<open>
  The pattern of every temporary prompt: append it to \<^verbatim>\<open>self.orchestrated_messages\<close>,
  call the oracle on the whole log, pop it again.
\<close>

definition ask_popped :: "env \<Rightarrow> client \<Rightarrow> content \<Rightarrow> bool \<Rightarrow> state \<Rightarrow> string \<times> state" where
  "ask_popped E cl prompt json_format st =
     (let st1 = st\<lparr>orchestrated_messages := orchestrated_messages st @
                   [\<lparr>role = User, content = prompt, mname = sender_name E\<rparr>]\<rparr>;
          (text, st2) = create cl (orchestrated_messages st1) json_format st1
      in (text, st2\<lparr>orchestrated_messages := butlast (orchestrated_messages st2)\<rparr>))"


section \<open>The turn decision protocol\<close>

definition max_turns :: nat where
  "max_turns = 30"

definition execution_enabled_agents :: "env \<Rightarrow> agent list" where
  "execution_enabled_agents E = filter code_execution_config (agents E)"

definition code_blocks :: "env \<Rightarrow> content \<Rightarrow> (string \<times> string) list" where
  "code_blocks E prev_message =
     filter (\<lambda>t. fst t = ''python'' \<or> fst t = ''sh'') (extract_code E prev_message)"

text \<open>
  The branch taken when the previous message holds code and a worker can execute it:
  one structured query, then the two fields \<^verbatim>\<open>next_speaker\<close> and
  \<^verbatim>\<open>instruction_or_question\<close> are stored into the parsed answer. Only
  \<^verbatim>\<open>JSONDecodeError\<close> is caught there, so a \<^verbatim>\<open>TypeError\<close> of the item assignment
  leaves \<^verbatim>\<open>run_chat\<close>.
\<close>

definition fast_path :: "env \<Rightarrow> client \<Rightarrow> content \<Rightarrow> state \<Rightarrow> json flow" where
  "fast_path E cl task st =
     (case ask_popped E cl (FastStepPrompt task) True st of (text, st1) \<Rightarrow>
      case loads E text of
        None \<Rightarrow> Brk 249 st1
      | Some data \<Rightarrow>
         (case execution_enabled_agents E of
            [] \<Rightarrow> Err IndexError st1
          | a # _ \<Rightarrow>
             (case setitem data ''next_speaker''
                     (JObj [(''reason'', JStr ''Assigning to an agent that can execute the script.''),
                            (''answer'', JStr (name a))]) of
                Inl e \<Rightarrow> Err e st1
              | Inr data1 \<Rightarrow>
                 (case setitem data1 ''instruction_or_question''
                         (JObj [(''reason'', JStr ''Assigning to an agent that can execute the script.''),
                                (''answer'', JStr ''Please execute the above script.'')]) of
                    Inl e \<Rightarrow> Err e st1
                  | Inr data2 \<Rightarrow> Go data2 st1))))"

text \<open>
  \<^verbatim>\<open>if data2["current_evaluation"]["answer"] > data["current_evaluation"]["answer"]:
      data = data2; plan = new_plan\<close>
\<close>

definition keep_best :: "json \<Rightarrow> json \<Rightarrow> string \<Rightarrow> string \<Rightarrow> error + json \<times> string" where
  "keep_best data data2 cur_plan new_plan =
     (case answer data2 ''current_evaluation'' of
        Inl e \<Rightarrow> Inl e
      | Inr e2 \<Rightarrow>
         (case answer data ''current_evaluation'' of
            Inl e \<Rightarrow> Inl e
          | Inr e1 \<Rightarrow>
             (case py_cmp GT e2 e1 of
                Inl e \<Rightarrow> Inl e
              | Inr better \<Rightarrow> Inr (if better then (data2, new_plan) else (data, cur_plan)))))"

text \<open>
  The other branch: a first structured answer, a revised plan asked for and broadcast,
  a second structured answer under the same prompt, and the better of the two kept.
\<close>

definition normal_path :: "env \<Rightarrow> client \<Rightarrow> content \<Rightarrow> state \<Rightarrow> json flow" where
  "normal_path E cl task st =
     (case ask_popped E cl (NormalStepPrompt task (agents E)) True st of (text, st1) \<Rightarrow>
      case loads E text of
        None \<Rightarrow> Brk 308 st1
      | Some data \<Rightarrow>
      case answer data ''instruction_or_question'' of
        Inl e \<Rightarrow> Err e st1
      | Inr prev_message \<Rightarrow>
      case answer data ''current_evaluation'' of
        Inl e \<Rightarrow> Err e st1
      | Inr prev_evaluation \<Rightarrow>
      case ask_popped E cl (RevisePlanPrompt prev_evaluation data (plan st1) (agents E)) False st1
      of (new_plan, st2) \<Rightarrow>
      case ask_popped E cl (NormalStepPrompt task (agents E)) True
             (broadcast E \<lparr>role = User, content = UpdatedPlan new_plan, mname = self_name E\<rparr> [] [] st2)
      of (text2, st3) \<Rightarrow>
      case loads E text2 of
        None \<Rightarrow> Brk 363 st3
      | Some data2 \<Rightarrow>
      case answer data2 ''instruction_or_question'' of
        Inl e \<Rightarrow> Err e st3
      | Inr instruction2 \<Rightarrow>
      case keep_best data data2 (plan st3) new_plan of
        Inl e \<Rightarrow> Err e st3
      | Inr (best, best_plan) \<Rightarrow> Go best (st3\<lparr>plan := best_plan\<rparr>))"

text \<open>Lines 192 to 371: the assessment of a turn, ending with the answer to act on.\<close>

definition assess :: "env \<Rightarrow> client \<Rightarrow> content \<Rightarrow> state \<Rightarrow> json flow" where
  "assess E cl task st =
     (if orchestrated_messages st = [] then Err IndexError st
      else if code_blocks E (content (last (orchestrated_messages st))) \<noteq> []
              \<and> execution_enabled_agents E \<noteq> []
        then fast_path E cl task st
        else normal_path E cl task st)"

text \<open>Lines 374 to 389: the checkpoint, the satisfaction test and \<^verbatim>\<open>stalled_count\<close>.\<close>

definition record_turn :: "json \<Rightarrow> state \<Rightarrow> unit flow" where
  "record_turn data st =
     (case answer data ''current_evaluation'' of
        Inl e \<Rightarrow> Err e st
      | Inr ev \<Rightarrow>
      case answer data ''instruction_or_question'' of
        Inl e \<Rightarrow> Err e st
      | Inr instruction \<Rightarrow>
      let st1 = save_checkpoint (plan st) ev instruction st
      in case answer data ''is_request_satisfied'' of
        Inl e \<Rightarrow> Err e st1
      | Inr satisfied \<Rightarrow>
      if truthy satisfied then Ret st1
      else
      case answer data ''is_progress_being_made'' of
        Inl e \<Rightarrow> Err e st1
      | Inr progress \<Rightarrow>
      if truthy progress
      then Go () (st1\<lparr>stalled_count := max (stalled_count st1 - 1) 0\<rparr>)
      else Go () (st1\<lparr>stalled_count := stalled_count st1 + 1\<rparr>))"

section \<open>Stagnation and escalation\<close>

text \<open>\<^verbatim>\<open>[cp["evaluation"] for cp in self._checkpoints[-3:]]\<close>\<close>

definition last_evaluations :: "state \<Rightarrow> json list" where
  "last_evaluations st =
     map evaluation (drop (length (checkpoints st) - 3) (checkpoints st))"

text \<open>
  \<^verbatim>\<open>all(e >= last_evaluations[i+1] for i, e in enumerate(last_evaluations[:-1]))\<close>:
  the generator stops at the first comparison that is false.
\<close>

fun non_increasing :: "json list \<Rightarrow> error + bool" where
  "non_increasing (a # b # rest) =
     (case py_cmp GE a b of
        Inl e \<Rightarrow> Inl e
      | Inr ok \<Rightarrow> if ok then non_increasing (b # rest) else Inr False)"
| "non_increasing _ = Inr True"

text \<open>
  Lines 396 to 474, entered when the trend is found. Only the binding of
  \<^verbatim>\<open>educated_guess_promt\<close> is under \<^verbatim>\<open>if times_stalled >= 2\<close>; the statements from line 414
  on are at the indentation of the increment and read the variable whatever the counter is.
\<close>

definition escalate :: "env \<Rightarrow> client \<Rightarrow> state \<Rightarrow> unit flow" where
  "escalate E cl st0 =
     (let st1 = st0\<lparr>times_stalled := times_stalled st0 + 1\<rparr>;
          st2 = (if times_stalled st1 \<ge> 2
                 then st1\<lparr>educated_guess_promt := Some (EducatedGuessPrompt (facts st1))\<rparr>
                 else st1)
      in case educated_guess_promt st2 of
        None \<Rightarrow> Err UnboundLocalError st2
      | Some prompt \<Rightarrow>
      case ask_popped E cl prompt True st2 of (text, st3) \<Rightarrow>
      case loads E text of
        None \<Rightarrow> Brk 429 st3
      | Some data \<Rightarrow>
      case answer data ''has_educated_guesses'' of
        Inl e \<Rightarrow> Err e st3
      | Inr guess \<Rightarrow>
      if truthy guess then Ret st3
      else
      case create cl (orchestrated_messages st3 @
                        [\<lparr>role = User, content = NewFactsPrompt (facts st3), mname = sender_name E\<rparr>])
             False
             (st3\<lparr>orchestrated_messages := orchestrated_messages st3 @
                        [\<lparr>role = User, content = NewFactsPrompt (facts st3), mname = sender_name E\<rparr>]\<rparr>)
      of (new_facts, st4) \<Rightarrow>
      let st5 = st4\<lparr>facts := new_facts,
                    orchestrated_messages := orchestrated_messages st4 @
                        [\<lparr>role = Assistant, content = Val (JStr new_facts), mname = self_name E\<rparr>]\<rparr>;
          st6 = st5\<lparr>orchestrated_messages := orchestrated_messages st5 @
                        [\<lparr>role = User, content = ReplanPrompt (checkpoints st5) (agents E),
                          mname = sender_name E\<rparr>]\<rparr>
      in case create cl (orchestrated_messages st6) False st6 of (new_plan, st7) \<Rightarrow>
      Brk 474 (st7\<lparr>plan := new_plan, checkpoints := []\<rparr>))"

text \<open>Lines 391 to 394: the trend test over the last three checkpoints.\<close>

definition stagnation :: "env \<Rightarrow> client \<Rightarrow> state \<Rightarrow> unit flow" where
  "stagnation E cl st =
     (if length (checkpoints st) \<ge> 3
      then (case non_increasing (last_evaluations st) of
              Inl e \<Rightarrow> Err e st
            | Inr stalled \<Rightarrow> if stalled then escalate E cl st else Go () st)
      else Go () st)"

section \<open>Delegation\<close>

text \<open>The first worker of the team whose name equals the chosen speaker, with its position.\<close>

fun find_speaker :: "json \<Rightarrow> (nat \<times> agent) list \<Rightarrow> (nat \<times> agent) option" where
  "find_speaker speaker [] = None"
| "find_speaker speaker ((i, a) # as) =
     (if JStr (name a) = speaker then Some (i, a) else find_speaker speaker as)"

text \<open>Lines 476 to 493.\<close>

definition delegate :: "env \<Rightarrow> json \<Rightarrow> state \<Rightarrow> unit flow" where
  "delegate E data st =
     (case answer data ''instruction_or_question'' of
        Inl e \<Rightarrow> Err e st
      | Inr instruction \<Rightarrow>
      case answer data ''next_speaker'' of
        Inl e \<Rightarrow> Err e st
      | Inr speaker \<Rightarrow>
      let m = \<lparr>role = User,
               content = Val (if instruction = JNull then JStr [] else instruction),
               mname = self_name E\<rparr>;
          st1 = broadcast E m [Named speaker] [] st;
          st2 = st1\<lparr>orchestrated_messages := orchestrated_messages st1 @ [m\<lparr>role := Assistant\<rparr>]\<rparr>
      in case find_speaker speaker (enumerate 0 (agents E)) of
        None \<Rightarrow> Go () st2
      | Some (i, a) \<Rightarrow>
         (let reply = \<lparr>role = User, content = Val (generate_reply E i (replies st2)), mname = name a\<rparr>;
              st3 = st2\<lparr>replies := Suc (replies st2), events := events st2 @ [Request i]\<rparr>;
              st4 = st3\<lparr>orchestrated_messages := orchestrated_messages st3 @ [reply],
                        events := events st3 @ [Echo reply i]\<rparr>
          in Go () (broadcast E reply [] [Ref i] st4)))"

section \<open>Rounds, turns and the run\<close>

text \<open>One iteration of the inner loop, lines 190 to 493.\<close>

definition turn :: "env \<Rightarrow> client \<Rightarrow> content \<Rightarrow> state \<Rightarrow> unit flow" where
  "turn E cl task st =
     (case assess E cl task (st\<lparr>total_turns := total_turns st + 1\<rparr>) of
        Brk l s \<Rightarrow> Brk l s
      | Ret s \<Rightarrow> Ret s
      | Err e s \<Rightarrow> Err e s
      | Go data s1 \<Rightarrow>
         (case record_turn data s1 of
            Brk l s \<Rightarrow> Brk l s
          | Ret s \<Rightarrow> Ret s
          | Err e s \<Rightarrow> Err e s
          | Go u s2 \<Rightarrow>
             (case stagnation E cl s2 of
                Brk l s \<Rightarrow> Brk l s
              | Ret s \<Rightarrow> Ret s
              | Err e s \<Rightarrow> Err e s
              | Go v s3 \<Rightarrow> delegate E data s3)))"

text \<open>Lines 164 to 188: what the outer loop does before its inner loop.\<close>

definition round_init :: "env \<Rightarrow> content \<Rightarrow> state \<Rightarrow> state" where
  "round_init E task st =
     (let st1 = st\<lparr>orchestrated_messages := [],
                   events := events st @ map Reset [0..<length (agents E)]\<rparr>;
          briefing = \<lparr>role = Assistant,
                      content = Briefing task (agents E) (facts st1) (plan st1),
                      mname = self_name E\<rparr>;
          st2 = st1\<lparr>orchestrated_messages := orchestrated_messages st1 @ [briefing]\<rparr>
      in (broadcast E briefing [] [] st2)\<lparr>stalled_count := 0\<rparr>)"


text \<open>
  The two nested \<^verbatim>\<open>while total_turns < max_turns\<close> loops as a machine: \<open>AtOuter\<close> is the
  test of the outer loop, \<open>AtInner\<close> the test of the inner one, \<open>Halted\<close> the end of
  \<^verbatim>\<open>run_chat\<close> by \<^verbatim>\<open>return\<close> or by an exception. A \<^verbatim>\<open>break\<close> leads back to the outer test.
\<close>

datatype outcome = Returned bool "string option" state | Raised error state

datatype config = AtOuter state | AtInner state | Halted outcome

fun step :: "env \<Rightarrow> client \<Rightarrow> content \<Rightarrow> config \<Rightarrow> config" where
  "step E cl task (AtOuter st) =
     (if total_turns st < max_turns then AtInner (round_init E task st)
      else Halted (Returned True (Some ''TERMINATE'') st))"
| "step E cl task (AtInner st) =
     (if total_turns st < max_turns
      then (case turn E cl task st of
              Go u st' \<Rightarrow> AtInner st'
            | Brk l st' \<Rightarrow> AtOuter st'
            | Ret st' \<Rightarrow> Halted (Returned True (Some ''TERMINATE'') st')
            | Err e st' \<Rightarrow> Halted (Raised e st'))
      else AtOuter st)"
| "step E cl task (Halted out) = Halted out"

fun conf_state :: "config \<Rightarrow> state" where
  "conf_state (AtOuter st) = st"
| "conf_state (AtInner st) = st"
| "conf_state (Halted (Returned b r st)) = st"
| "conf_state (Halted (Raised e st)) = st"

fun weight :: "config \<Rightarrow> nat" where
  "weight (Halted out) = 0"
| "weight (AtOuter st) =
     (if total_turns st < max_turns then 2 * (max_turns - total_turns st) + 3 else 1)"
| "weight (AtInner st) =
     (if total_turns st < max_turns then 2 * (max_turns - total_turns st) + 2 else 2)"

text \<open>
  The run of the machine from a configuration to the end of \<^verbatim>\<open>run_chat\<close>. Every turn
  adds one to \<open>total_turns\<close> and nothing else changes it, so the run ends.
\<close>

function main_loop :: "env \<Rightarrow> client \<Rightarrow> content \<Rightarrow> config \<Rightarrow> outcome" where
  "main_loop E cl task (Halted out) = out"
| "main_loop E cl task (AtOuter st) = main_loop E cl task (step E cl task (AtOuter st))"
| "main_loop E cl task (AtInner st) = main_loop E cl task (step E cl task (AtInner st))"
  by pat_completeness auto
termination
proof (relation "measure (\<lambda>(E, cl, task, c). weight c)")
  show "wf (measure (\<lambda>(E, cl, task, c). weight c))" by simp
next
  fix E :: env and cl :: client and task :: content and st :: state
  show "((E, cl, task, step E cl task (AtOuter st)), E, cl, task, AtOuter st)
             \<in> measure (\<lambda>(E, cl, task, c). weight c)"
    by (simp add: round_init_def broadcast_def Let_def)
next
  fix E :: env and cl :: client and task :: content and st :: state
  have ask: "\<And>p f s. ask_popped E cl p f s =
     (cl (queries s),
      s\<lparr>queries := Suc (queries s),
        events := events s @
          [Query (orchestrated_messages s @ [\<lparr>role = User, content = p, mname = sender_name E\<rparr>]) f]\<rparr>)"
    by (simp add: ask_popped_def create_def)
  have fp: "\<And>s. total_turns (state_of (fast_path E cl task s)) = total_turns s"
    by (simp add: fast_path_def ask split: option.splits list.splits sum.splits)
  have np: "\<And>s. total_turns (state_of (normal_path E cl task s)) = total_turns s"
    by (simp add: normal_path_def ask broadcast_def split: option.splits sum.splits prod.splits)
  have as: "\<And>s. total_turns (state_of (assess E cl task s)) = total_turns s"
    by (simp add: assess_def fp np)
  have rt: "\<And>data s. total_turns (state_of (record_turn data s)) = total_turns s"
    by (simp add: record_turn_def save_checkpoint_def Let_def split: sum.splits)
  have es: "\<And>s. total_turns (state_of (escalate E cl s)) = total_turns s"
    by (simp add: escalate_def ask create_def Let_def split: option.splits sum.splits prod.splits)
  have sg: "\<And>s. total_turns (state_of (stagnation E cl s)) = total_turns s"
    by (simp add: stagnation_def es split: sum.splits)
  have dl: "\<And>data s. total_turns (state_of (delegate E data s)) = total_turns s"
    by (simp add: delegate_def broadcast_def Let_def split: option.splits sum.splits prod.splits)
  let ?st = "st\<lparr>total_turns := Suc (total_turns st)\<rparr>"
  have a: "total_turns (state_of (assess E cl task ?st)) = Suc (total_turns st)"
    by (simp add: as)
  have t: "total_turns (state_of (turn E cl task st)) = Suc (total_turns st)"
  proof (cases "assess E cl task ?st")
    case (Go data s1)
    with a have s1: "total_turns s1 = Suc (total_turns st)" by simp
    have r: "total_turns (state_of (record_turn data s1)) = Suc (total_turns st)"
      by (simp add: rt s1)
    show ?thesis
    proof (cases "record_turn data s1")
      case (Go u s2)
      with r have s2: "total_turns s2 = Suc (total_turns st)" by simp
      have g: "total_turns (state_of (stagnation E cl s2)) = Suc (total_turns st)"
        by (simp add: sg s2)
      show ?thesis
      proof (cases "stagnation E cl s2")
        case (Go v s3)
        with g have s3: "total_turns s3 = Suc (total_turns st)" by simp
        have "turn E cl task st = delegate E data s3"
          by (simp add: turn_def \<open>assess E cl task ?st = Go data s1\<close>
                \<open>record_turn data s1 = Go u s2\<close> Go)
        then show ?thesis by (simp add: dl s3)
      qed (use g \<open>assess E cl task ?st = Go data s1\<close> \<open>record_turn data s1 = Go u s2\<close>
           in \<open>simp_all add: turn_def\<close>)
    qed (use r Go in \<open>simp_all add: turn_def\<close>)
  qed (use a in \<open>simp_all add: turn_def\<close>)
  have "weight (step E cl task (AtInner st)) < weight (AtInner st)"
    using t by (cases "turn E cl task st") auto
  then show "((E, cl, task, step E cl task (AtInner st)), E, cl, task, AtInner st)
             \<in> measure (\<lambda>(E, cl, task, c). weight c)"
    by simp
qed

text \<open>
  Lines 83 to 160: the two free-text queries on a copy of the incoming messages, whose last
  message is the task, and the initial values of the locals. The messages and the sender
  are taken as given (the \<^verbatim>\<open>messages is None\<close> lookup is not modelled).
\<close>

definition bootstrap :: "env \<Rightarrow> client \<Rightarrow> message list \<Rightarrow> state \<Rightarrow> error + content \<times> state" where
  "bootstrap E cl messages st =
     (if messages = [] then Inl IndexError
      else
        let task = content (last messages);
            m1 = butlast messages @
                   [\<lparr>role = User, content = ClosedBookPrompt task, mname = sender_name E\<rparr>]
        in case create cl m1 False st of (r1, st1) \<Rightarrow>
        let m2 = m1 @ [\<lparr>role = Assistant, content = Val (JStr r1), mname = self_name E\<rparr>,
                       \<lparr>role = User, content = PlanPrompt (agents E), mname = sender_name E\<rparr>]
        in case create cl m2 False st1 of (r2, st2) \<Rightarrow>
        Inr (task, st2\<lparr>facts := r1, plan := r2, total_turns := 0, times_stalled := 0,
                       educated_guess_promt := None\<rparr>))"

text \<open>\<^verbatim>\<open>run_chat\<close>; \<open>None\<close> for the client is \<^verbatim>\<open>self.client is None\<close>.\<close>

definition run_chat :: "env \<Rightarrow> client option \<Rightarrow> message list \<Rightarrow> state \<Rightarrow> outcome" where
  "run_chat E client messages st =
     (case client of
        None \<Rightarrow> Returned False None st
      | Some cl \<Rightarrow>
         (case bootstrap E cl messages st of
            Inl e \<Rightarrow> Raised e st
          | Inr (task, st0) \<Rightarrow> main_loop E cl task (AtOuter st0)))"

section \<open>Notions used by the properties\<close>

text \<open>A score as the prompts ask for it: an integer from 1 to 100.\<close>

fun score_ok :: "json \<Rightarrow> bool" where
  "score_ok (JInt i) = (1 \<le> i \<and> i \<le> 100)"
| "score_ok _ = False"

text \<open>
  The judged fields that the schema written in a prompt asks the oracle for (the
  \<^verbatim>\<open>{{ ... }}\<close> block of the three structured prompts; the other prompts ask for free text).
\<close>

fun schema_fields :: "content \<Rightarrow> string list" where
  "schema_fields (FastStepPrompt task) =
     [''is_request_satisfied'', ''is_progress_being_made'', ''current_evaluation'']"
| "schema_fields (NormalStepPrompt task team) =
     [''is_request_satisfied'', ''is_progress_being_made'', ''current_evaluation'',
      ''next_speaker'', ''instruction_or_question'']"
| "schema_fields (EducatedGuessPrompt fs) = [''has_educated_guesses'']"
| "schema_fields _ = []"

text \<open>
  The orchestrator's memory is the same in two states: everything but the turn counter, the
  count of oracle calls and the trace of events.
\<close>

definition same_memory :: "state \<Rightarrow> state \<Rightarrow> bool" where
  "same_memory s t =
     (checkpoints t = checkpoints s \<and> facts t = facts s \<and> plan t = plan s
      \<and> times_stalled t = times_stalled s
      \<and> orchestrated_messages t = orchestrated_messages s
      \<and> educated_guess_promt t = educated_guess_promt s
      \<and> stalled_count t = stalled_count s \<and> replies t = replies s)"

text \<open>
  A configuration in which the run goes on has met no stall yet: \<^verbatim>\<open>times_stalled\<close> is 0
  and \<^verbatim>\<open>educated_guess_promt\<close> is unbound.
\<close>

fun unstalled :: "config \<Rightarrow> bool" where
  "unstalled (AtOuter st) = (times_stalled st = 0 \<and> educated_guess_promt st = None)"
| "unstalled (AtInner st) = (times_stalled st = 0 \<and> educated_guess_promt st = None)"
| "unstalled (Halted out) = True"

text \<open>
  A turn is taken with a context log that is not empty: it holds the briefing of the round
  at least, so that line 194 can read its last message.
\<close>

fun logged :: "config \<Rightarrow> bool" where
  "logged (AtInner st) = (orchestrated_messages st \<noteq> [])"
| "logged (AtOuter st) = True"
| "logged (Halted out) = True"

text \<open>
  A parsed answer after the two item assignments of the fast path: the speaker is the
  given name, the instruction is the fixed one.
\<close>

definition forced :: "string \<Rightarrow> (string \<times> json) list \<Rightarrow> json" where
  "forced executor kvs =
     JObj (AList.update ''instruction_or_question''
             (JObj [(''reason'', JStr ''Assigning to an agent that can execute the script.''),
                    (''answer'', JStr ''Please execute the above script.'')])
             (AList.update ''next_speaker''
                (JObj [(''reason'', JStr ''Assigning to an agent that can execute the script.''),
                       (''answer'', JStr executor)]) kvs))"

text \<open>What a loop body or a run ended with.\<close>

fun went :: "'a flow \<Rightarrow> 'a option" where
  "went (Go x st) = Some x"
| "went _ = None"

fun break_line :: "'a flow \<Rightarrow> nat option" where
  "break_line (Brk l st) = Some l"
| "break_line _ = None"

fun raised :: "outcome \<Rightarrow> error option" where
  "raised (Raised e st) = Some e"
| "raised (Returned b r st) = None"

fun final_state :: "outcome \<Rightarrow> state" where
  "final_state (Raised e st) = st"
| "final_state (Returned b r st) = st"

text \<open>
  Every checkpoint of a state holds a score from 1 to 100; every structured answer of the
  oracle that parses and has a \<^verbatim>\<open>current_evaluation\<close> answer holds such a score.
\<close>

definition scores_ok :: "state \<Rightarrow> bool" where
  "scores_ok st = list_all (\<lambda>c. score_ok (evaluation c)) (checkpoints st)"

definition oracle_scores_ok :: "env \<Rightarrow> client \<Rightarrow> bool" where
  "oracle_scores_ok E cl =
     (\<forall>n d v. loads E (cl n) = Some d \<longrightarrow> answer d ''current_evaluation'' = Inr v \<longrightarrow> score_ok v)"

text \<open>The state in which \<^verbatim>\<open>__init__\<close> leaves the object, the locals not yet set.\<close>

definition fresh :: state where
  "fresh = \<lparr>checkpoints = [], orchestrated_messages = [], facts = [], plan = [],
            total_turns = 0, times_stalled = 0, stalled_count = 0,
            educated_guess_promt = None, queries = 0, replies = 0, events = []\<rparr>"

section \<open>Example inputs\<close>

text \<open>
  A team, a request and some oracle texts with their \<^verbatim>\<open>json.loads\<close> values, for the concrete
  runs below. \<open>example_loads\<close> agrees with \<^verbatim>\<open>json.loads\<close> on the texts the examples use:
  the four JSON texts, and texts that are not JSON.
\<close>

definition solver :: agent where
  "solver = \<lparr>name = ''Solver'', description = ''Solves problems'', code_execution_config = False\<rparr>"

definition runner :: agent where
  "runner = \<lparr>name = ''Runner'', description = ''Runs scripts'', code_execution_config = True\<rparr>"

definition flat_text :: string where
  \<open>flat_text = ''{"is_request_satisfied": {"answer": false}, "is_progress_being_made": {"answer": false}, "current_evaluation": {"answer": 50}, "next_speaker": {"answer": "Solver"}, "instruction_or_question": {"answer": "Try again."}}''\<close>

definition flat_data :: json where
  "flat_data = JObj
     [(''is_request_satisfied'', JObj [(''answer'', JBool False)]),
      (''is_progress_being_made'', JObj [(''answer'', JBool False)]),
      (''current_evaluation'', JObj [(''answer'', JInt 50)]),
      (''next_speaker'', JObj [(''answer'', JStr ''Solver'')]),
      (''instruction_or_question'', JObj [(''answer'', JStr ''Try again.'')])]"

definition zero_text :: string where
  \<open>zero_text = ''{"is_request_satisfied": {"answer": true}, "is_progress_being_made": {"answer": true}, "current_evaluation": {"answer": 0}, "next_speaker": {"answer": "Solver"}, "instruction_or_question": {"answer": "Report the sum."}}''\<close>

definition zero_data :: json where
  "zero_data = JObj
     [(''is_request_satisfied'', JObj [(''answer'', JBool True)]),
      (''is_progress_being_made'', JObj [(''answer'', JBool True)]),
      (''current_evaluation'', JObj [(''answer'', JInt 0)]),
      (''next_speaker'', JObj [(''answer'', JStr ''Solver'')]),
      (''instruction_or_question'', JObj [(''answer'', JStr ''Report the sum.'')])]"

definition done_text :: string where
  \<open>done_text = ''{"is_request_satisfied": {"answer": true}, "is_progress_being_made": {"answer": true}, "current_evaluation": {"answer": 90}, "next_speaker": {"answer": "Solver"}, "instruction_or_question": {"answer": "Report the sum."}}''\<close>

definition done_data :: json where
  "done_data = JObj
     [(''is_request_satisfied'', JObj [(''answer'', JBool True)]),
      (''is_progress_being_made'', JObj [(''answer'', JBool True)]),
      (''current_evaluation'', JObj [(''answer'', JInt 90)]),
      (''next_speaker'', JObj [(''answer'', JStr ''Solver'')]),
      (''instruction_or_question'', JObj [(''answer'', JStr ''Report the sum.'')])]"

definition garbage_text :: string where
  "garbage_text = ''not json''"

definition no_guess_text :: string where
  \<open>no_guess_text = ''{"has_educated_guesses": {"answer": false}}''\<close>

definition no_guess_data :: json where
  "no_guess_data = JObj [(''has_educated_guesses'', JObj [(''answer'', JBool False)])]"

definition example_loads :: "string \<Rightarrow> json option" where
  "example_loads text =
     (if text = flat_text then Some flat_data
      else if text = zero_text then Some zero_data
      else if text = done_text then Some done_data
      else if text = no_guess_text then Some no_guess_data
      else None)"

definition example_env :: env where
  "example_env =
     \<lparr>agents = [solver], self_name = ''orchestrator'', sender_name = ''user_proxy'',
      loads = example_loads, extract_code = (\<lambda>c. []),
      generate_reply = (\<lambda>i n. JStr ''Working on it.'')\<rparr>"

definition example_task :: content where
  "example_task = Val (JStr ''What is 2+2?'')"

definition example_messages :: "message list" where
  "example_messages = [\<lparr>role = User, content = example_task, mname = ''user_proxy''\<rparr>]"

text \<open>A structured answer that names a speaker who is not on the team.\<close>

definition stranger_data :: json where
  "stranger_data = JObj
     [(''is_request_satisfied'', JObj [(''answer'', JBool False)]),
      (''is_progress_being_made'', JObj [(''answer'', JBool True)]),
      (''current_evaluation'', JObj [(''answer'', JInt 60)]),
      (''next_speaker'', JObj [(''answer'', JStr ''Nobody'')]),
      (''instruction_or_question'', JObj [(''answer'', JStr ''Check the sum.'')])]"

text \<open>The state after the two bootstrap queries of the example, and its first round.\<close>

definition booted :: "client \<Rightarrow> state" where
  "booted cl =
     (case bootstrap example_env cl example_messages fresh of
        Inr (task, st0) \<Rightarrow> st0
      | Inl e \<Rightarrow> fresh)"

definition first_round :: "client \<Rightarrow> state" where
  "first_round cl = round_init example_env example_task (booted cl)"

text \<open>
  A team with a worker that executes code, and a context log whose last message is a
  worker's reply holding a Python block.
\<close>

definition script_reply :: string where
  "script_reply = ''```python'' @ [CHR 0x0A] @ ''print(2 + 2)'' @ [CHR 0x0A] @ ''```''"

definition code_env :: env where
  "code_env =
     \<lparr>agents = [solver, runner], self_name = ''orchestrator'', sender_name = ''user_proxy'',
      loads = example_loads,
      extract_code = (\<lambda>c. if c = Val (JStr script_reply)
                           then [(''python'', ''print(2 + 2)'')] else []),
      generate_reply = (\<lambda>i n. JStr ''4'')\<rparr>"

definition code_state :: state where
  "code_state =
     fresh\<lparr>orchestrated_messages :=
             [\<lparr>role = User, content = Val (JStr script_reply), mname = ''Solver''\<rparr>]\<rparr>"

text \<open>
  The locals and the checkpoint log at the start of a turn, in a round just begun, once a
  first stall has been counted over three checkpoints of score 50 (the trace of the earlier
  events is left empty), with an oracle for that turn: it gives the flat assessment to the
  three queries of the assessment, then declines to guess and goes on with free text.
\<close>

definition flat_checkpoint :: checkpoint where
  "flat_checkpoint =
     \<lparr>cp_plan = ''Ask Solver.'', evaluation = JInt 50, response = JStr ''Try again.''\<rparr>"

definition stalled_once :: state where
  "stalled_once =
     round_init example_env example_task
       (fresh\<lparr>checkpoints := [flat_checkpoint, flat_checkpoint, flat_checkpoint],
              facts := ''2 and 2 are given.'', plan := ''Ask Solver.'',
              total_turns := 3, times_stalled := 1, queries := 11, replies := 3\<rparr>)"

text \<open>
  Two oracles for the first turn of the example, whose three queries are the third, fourth
  and fifth of the run: the first rates the situation 50, then gives a revised plan, then
  rates it 90; the second rates it 50 twice, but its second structured answer is not JSON.
\<close>

definition improving :: client where
  "improving n =
     (if n = 2 then flat_text else if n = 3 then ''Ask Runner.''
      else if n = 4 then done_text else ''Ask Solver.'')"

definition second_fails :: client where
  "second_fails n = (if n = 4 then garbage_text else flat_text)"

definition guess_declined :: client where
  "guess_declined n =
     (if n < 14 then flat_text else if n = 14 then no_guess_text else ''Start over.'')"

section \<open>Properties\<close>

subsection \<open>What each part leaves alone\<close>

lemma ask_popped_eq:
  "ask_popped E cl p f st =
     (cl (queries st),
      st\<lparr>queries := Suc (queries st),
         events := events st @
           [Query (orchestrated_messages st @ [\<lparr>role = User, content = p, mname = sender_name E\<rparr>]) f]\<rparr>)"
  by (simp add: ask_popped_def create_def)

lemma fast_path_frame:
  "same_memory st (state_of (fast_path E cl task st))
   \<and> total_turns (state_of (fast_path E cl task st)) = total_turns st"
  by (simp add: fast_path_def ask_popped_eq same_memory_def
        split: option.splits list.splits sum.splits)

lemma fast_path_Brk: "fast_path E cl task st = Brk l st' \<Longrightarrow> l = 249"
  by (simp add: fast_path_def ask_popped_eq split: option.splits list.splits sum.splits)

lemma fast_path_no_Ret: "fast_path E cl task st \<noteq> Ret st'"
  by (simp add: fast_path_def ask_popped_eq split: option.splits list.splits sum.splits)

lemma normal_path_frame:
  "checkpoints (state_of (normal_path E cl task st)) = checkpoints st
   \<and> facts (state_of (normal_path E cl task st)) = facts st
   \<and> times_stalled (state_of (normal_path E cl task st)) = times_stalled st
   \<and> orchestrated_messages (state_of (normal_path E cl task st)) = orchestrated_messages st
   \<and> educated_guess_promt (state_of (normal_path E cl task st)) = educated_guess_promt st
   \<and> stalled_count (state_of (normal_path E cl task st)) = stalled_count st
   \<and> replies (state_of (normal_path E cl task st)) = replies st
   \<and> total_turns (state_of (normal_path E cl task st)) = total_turns st"
  by (simp add: normal_path_def ask_popped_eq broadcast_def
        split: option.splits sum.splits prod.splits)

lemma normal_path_Brk:
  "normal_path E cl task st = Brk l st' \<Longrightarrow> (l = 308 \<or> l = 363) \<and> plan st' = plan st"
  by (auto simp add: normal_path_def ask_popped_eq broadcast_def
        split: option.splits sum.splits prod.splits)

lemma normal_path_Err:
  "normal_path E cl task st = Err e st' \<Longrightarrow> plan st' = plan st"
  by (auto simp add: normal_path_def ask_popped_eq broadcast_def
        split: option.splits sum.splits prod.splits)

lemma normal_path_no_Ret: "normal_path E cl task st \<noteq> Ret st'"
  by (simp add: normal_path_def ask_popped_eq broadcast_def
        split: option.splits sum.splits prod.splits)

lemma assess_frame:
  "checkpoints (state_of (assess E cl task st)) = checkpoints st
   \<and> facts (state_of (assess E cl task st)) = facts st
   \<and> times_stalled (state_of (assess E cl task st)) = times_stalled st
   \<and> orchestrated_messages (state_of (assess E cl task st)) = orchestrated_messages st
   \<and> educated_guess_promt (state_of (assess E cl task st)) = educated_guess_promt st
   \<and> stalled_count (state_of (assess E cl task st)) = stalled_count st
   \<and> replies (state_of (assess E cl task st)) = replies st
   \<and> total_turns (state_of (assess E cl task st)) = total_turns st"
  using fast_path_frame [of st E cl task] normal_path_frame [of E cl task st]
  by (simp add: assess_def same_memory_def)

lemma assess_Brk:
  "assess E cl task st = Brk l st' \<Longrightarrow> (l = 249 \<or> l = 308 \<or> l = 363) \<and> same_memory st st'"
  using assess_frame [of E cl task st] fast_path_frame [of st E cl task]
  by (auto simp add: assess_def same_memory_def split: if_splits
        dest: fast_path_Brk normal_path_Brk)

lemma assess_no_Ret: "assess E cl task st \<noteq> Ret st'"
  by (simp add: assess_def fast_path_no_Ret normal_path_no_Ret)

lemma record_turn_no_Brk: "record_turn data st \<noteq> Brk l st'"
  by (simp add: record_turn_def Let_def split: sum.splits)

lemma record_turn_Go:
  "record_turn data st = Go u st' \<Longrightarrow>
     \<exists>ev instruction. answer data ''current_evaluation'' = Inr ev
       \<and> answer data ''instruction_or_question'' = Inr instruction
       \<and> checkpoints st' = checkpoints st @ [\<lparr>cp_plan = plan st, evaluation = ev, response = instruction\<rparr>]
       \<and> facts st' = facts st \<and> plan st' = plan st \<and> times_stalled st' = times_stalled st
       \<and> orchestrated_messages st' = orchestrated_messages st
       \<and> educated_guess_promt st' = educated_guess_promt st
       \<and> total_turns st' = total_turns st \<and> events st' = events st \<and> queries st' = queries st
       \<and> replies st' = replies st"
  by (auto simp add: record_turn_def save_checkpoint_def Let_def split: sum.splits if_splits)

lemma record_turn_checkpoints:
  "checkpoints (state_of (record_turn data st)) = checkpoints st
   \<or> (\<exists>ev instruction. answer data ''current_evaluation'' = Inr ev \<and>
        checkpoints (state_of (record_turn data st)) =
          checkpoints st @ [\<lparr>cp_plan = plan st, evaluation = ev, response = instruction\<rparr>])"
  by (auto simp add: record_turn_def save_checkpoint_def Let_def split: sum.splits if_splits)

lemma delegate_no_Brk: "delegate E data st \<noteq> Brk l st'"
  by (simp add: delegate_def Let_def split: sum.splits option.splits prod.splits)

lemma delegate_no_Ret: "delegate E data st \<noteq> Ret st'"
  by (simp add: delegate_def Let_def split: sum.splits option.splits prod.splits)

lemma delegate_frame:
  "checkpoints (state_of (delegate E data st)) = checkpoints st
   \<and> facts (state_of (delegate E data st)) = facts st
   \<and> plan (state_of (delegate E data st)) = plan st
   \<and> times_stalled (state_of (delegate E data st)) = times_stalled st
   \<and> educated_guess_promt (state_of (delegate E data st)) = educated_guess_promt st
   \<and> total_turns (state_of (delegate E data st)) = total_turns st
   \<and> queries (state_of (delegate E data st)) = queries st"
  by (simp add: delegate_def broadcast_def Let_def split: sum.splits option.splits prod.splits)

lemma escalate_cases:
  "escalate E cl st = r \<Longrightarrow>
     times_stalled (state_of r) = Suc (times_stalled st)
     \<and> total_turns (state_of r) = total_turns st
     \<and> (case r of
          Go u s \<Rightarrow> False
        | Brk l s \<Rightarrow>
            (l = 429 \<and> checkpoints s = checkpoints st \<and> facts s = facts st \<and> plan s = plan st
               \<and> orchestrated_messages s = orchestrated_messages st)
            \<or> (l = 474 \<and> checkpoints s = [])
        | Ret s \<Rightarrow> checkpoints s = checkpoints st \<and> facts s = facts st \<and> plan s = plan st
        | Err e s \<Rightarrow> checkpoints s = checkpoints st \<and> facts s = facts st \<and> plan s = plan st)"
  by (auto simp add: escalate_def ask_popped_eq create_def Let_def
        split: option.splits sum.splits prod.splits if_splits)


lemma stagnation_cases:
  "stagnation E cl st = r \<Longrightarrow>
     (r = Go () st)
     \<or> (\<exists>e. r = Err e st)
     \<or> (3 \<le> length (checkpoints st) \<and> non_increasing (last_evaluations st) = Inr True
          \<and> r = escalate E cl st)"
  by (auto simp add: stagnation_def split: if_splits sum.splits)

lemma turn_Brk_cases:
  assumes "turn E cl task st = Brk l st'"
  shows "assess E cl task (st\<lparr>total_turns := Suc (total_turns st)\<rparr>) = Brk l st'
       \<or> (\<exists>data s1 s2. assess E cl task (st\<lparr>total_turns := Suc (total_turns st)\<rparr>) = Go data s1
            \<and> record_turn data s1 = Go () s2 \<and> stagnation E cl s2 = Brk l st')"
  using assms
  by (auto simp add: turn_def record_turn_no_Brk delegate_no_Brk split: flow.splits)

lemma turn_total_turns: "total_turns (state_of (turn E cl task st)) = Suc (total_turns st)"
proof -
  let ?st = "st\<lparr>total_turns := Suc (total_turns st)\<rparr>"
  have a: "total_turns (state_of (assess E cl task ?st)) = Suc (total_turns st)"
    using assess_frame [of E cl task ?st] by simp
  show ?thesis
  proof (cases "assess E cl task ?st")
    case (Go data s1)
    with a have s1: "total_turns s1 = Suc (total_turns st)" by simp
    have r: "total_turns (state_of (record_turn data s1)) = Suc (total_turns st)"
      using s1 by (simp add: record_turn_def save_checkpoint_def Let_def split: sum.splits)
    show ?thesis
    proof (cases "record_turn data s1")
      case (Go u s2)
      with r have s2: "total_turns s2 = Suc (total_turns st)" by simp
      have g: "total_turns (state_of (stagnation E cl s2)) = Suc (total_turns st)"
        using stagnation_cases [OF refl, of E cl s2] escalate_cases [OF refl, of E cl s2] s2
        by auto
      show ?thesis
      proof (cases "stagnation E cl s2")
        case (Go v s3)
        with g have s3: "total_turns s3 = Suc (total_turns st)" by simp
        have "turn E cl task st = delegate E data s3"
          by (simp add: turn_def \<open>assess E cl task ?st = Go data s1\<close>
                \<open>record_turn data s1 = Go u s2\<close> Go)
        then show ?thesis using delegate_frame [of E data s3] by (simp add: s3)
      qed (use g \<open>assess E cl task ?st = Go data s1\<close> \<open>record_turn data s1 = Go u s2\<close>
           in \<open>simp_all add: turn_def\<close>)
    qed (use r Go in \<open>simp_all add: turn_def\<close>)
  qed (use a in \<open>simp_all add: turn_def\<close>)
qed

lemma round_init_frame:
  "total_turns (round_init E task st) = total_turns st
   \<and> checkpoints (round_init E task st) = checkpoints st
   \<and> times_stalled (round_init E task st) = times_stalled st
   \<and> facts (round_init E task st) = facts st
   \<and> plan (round_init E task st) = plan st
   \<and> educated_guess_promt (round_init E task st) = educated_guess_promt st
   \<and> orchestrated_messages (round_init E task st) \<noteq> []"
  by (simp add: round_init_def broadcast_def Let_def)

lemma step_total_turns:
  assumes "total_turns (conf_state c) \<le> max_turns"
  shows "total_turns (conf_state (step E cl task c)) \<le> max_turns"
proof (cases c)
  case (AtOuter st)
  with assms show ?thesis by (simp add: round_init_frame)
next
  case (AtInner st)
  have t: "total_turns (state_of (turn E cl task st)) = Suc (total_turns st)"
    by (rule turn_total_turns)
  show ?thesis
  proof (cases "total_turns st < max_turns")
    case True
    with t AtInner show ?thesis by (cases "turn E cl task st") auto
  next
    case False
    with assms AtInner show ?thesis by simp
  qed
next
  case (Halted out)
  with assms show ?thesis by simp
qed

lemma steps_total_turns:
  "total_turns (conf_state c) \<le> max_turns \<Longrightarrow>
   total_turns (conf_state ((step E cl task ^^ n) c)) \<le> max_turns"
  by (induction n) (simp_all add: step_total_turns)

lemma main_loop_steps: "\<exists>k. (step E cl task ^^ k) c = Halted (main_loop E cl task c)"
proof (induction E cl task c rule: main_loop.induct)
  case (1 E cl task out)
  have "(step E cl task ^^ 0) (Halted out) = Halted (main_loop E cl task (Halted out))" by simp
  then show ?case by blast
next
  case (2 E cl task st)
  then obtain k where "(step E cl task ^^ k) (step E cl task (AtOuter st))
      = Halted (main_loop E cl task (step E cl task (AtOuter st)))" by blast
  then have "(step E cl task ^^ Suc k) (AtOuter st) = Halted (main_loop E cl task (AtOuter st))"
    by (simp add: funpow_swap1 del: step.simps)
  then show ?case by blast
next
  case (3 E cl task st)
  then obtain k where "(step E cl task ^^ k) (step E cl task (AtInner st))
      = Halted (main_loop E cl task (step E cl task (AtInner st)))" by blast
  then have "(step E cl task ^^ Suc k) (AtInner st) = Halted (main_loop E cl task (AtInner st))"
    by (simp add: funpow_swap1 del: step.simps)
  then show ?case by blast
qed

lemma bootstrap_total_turns:
  "bootstrap E cl messages st = Inr (task, st0) \<Longrightarrow>
     total_turns st0 = 0 \<and> times_stalled st0 = 0 \<and> educated_guess_promt st0 = None
     \<and> checkpoints st0 = checkpoints st"
  by (auto simp add: bootstrap_def create_def Let_def split: if_splits)

lemma record_turn_frame:
  "times_stalled (state_of (record_turn data st)) = times_stalled st
   \<and> educated_guess_promt (state_of (record_turn data st)) = educated_guess_promt st
   \<and> facts (state_of (record_turn data st)) = facts st
   \<and> plan (state_of (record_turn data st)) = plan st"
  by (simp add: record_turn_def save_checkpoint_def Let_def split: sum.splits)

lemma turn_Go_cases:
  assumes "turn E cl task st = Go u st'"
  shows "\<exists>data s1 s2. assess E cl task (st\<lparr>total_turns := Suc (total_turns st)\<rparr>) = Go data s1
            \<and> record_turn data s1 = Go () s2 \<and> stagnation E cl s2 = Go () s2
            \<and> delegate E data s2 = Go u st'"
proof -
  from assms obtain data s1 where a: "assess E cl task (st\<lparr>total_turns := Suc (total_turns st)\<rparr>) = Go data s1"
    by (auto simp add: turn_def split: flow.splits)
  with assms obtain s2 where r: "record_turn data s1 = Go () s2"
    by (auto simp add: turn_def split: flow.splits)
  with a assms obtain s3 where g: "stagnation E cl s2 = Go () s3"
    by (auto simp add: turn_def split: flow.splits)
  have "s3 = s2"
    using stagnation_cases [OF g] escalate_cases [of E cl s2 "Go () s3"] by auto
  with a r g assms show ?thesis by (auto simp add: turn_def)
qed

lemma turn_state:
  "state_of (turn E cl task st) = state_of (assess E cl task (st\<lparr>total_turns := Suc (total_turns st)\<rparr>))
   \<or> (\<exists>data s1. assess E cl task (st\<lparr>total_turns := Suc (total_turns st)\<rparr>) = Go data s1
        \<and> (state_of (turn E cl task st) = state_of (record_turn data s1)
           \<or> (\<exists>s2. record_turn data s1 = Go () s2
                \<and> (state_of (turn E cl task st) = state_of (stagnation E cl s2)
                   \<or> (stagnation E cl s2 = Go () s2
                        \<and> state_of (turn E cl task st) = state_of (delegate E data s2))))))"
proof (cases "assess E cl task (st\<lparr>total_turns := Suc (total_turns st)\<rparr>)")
  case (Go data s1)
  show ?thesis
  proof (cases "record_turn data s1")
    case g2: (Go u s2)
    show ?thesis
    proof (cases "stagnation E cl s2")
      case g3: (Go v s3)
      have "s3 = s2"
        using stagnation_cases [OF g3] escalate_cases [of E cl s2 "Go v s3"] by auto
      with Go g2 g3 show ?thesis by (simp add: turn_def)
    qed (use Go g2 in \<open>simp_all add: turn_def\<close>)
  qed (use Go in \<open>simp_all add: turn_def\<close>)
qed (simp_all add: turn_def)

lemma stagnation_times_stalled:
  "stagnation E cl st = r \<Longrightarrow>
     times_stalled (state_of r) = times_stalled st
     \<or> (times_stalled (state_of r) = Suc (times_stalled st)
          \<and> 3 \<le> length (checkpoints st) \<and> non_increasing (last_evaluations st) = Inr True)"
  using stagnation_cases [of E cl st r] escalate_cases [of E cl st r] by auto

lemma stagnation_checkpoints:
  "checkpoints (state_of (stagnation E cl st)) = checkpoints st
   \<or> checkpoints (state_of (stagnation E cl st)) = []"
  using stagnation_cases [OF refl, of E cl st] escalate_cases [OF refl, of E cl st]
  by (cases "escalate E cl st") auto

lemma turn_times_stalled:
  "times_stalled (state_of (turn E cl task st)) = times_stalled st
   \<or> (times_stalled (state_of (turn E cl task st)) = Suc (times_stalled st)
        \<and> (\<exists>s cp. checkpoints s = checkpoints st @ [cp] \<and> 3 \<le> length (checkpoints s)
              \<and> non_increasing (last_evaluations s) = Inr True))"
proof -
  let ?st = "st\<lparr>total_turns := Suc (total_turns st)\<rparr>"
  have a: "times_stalled (state_of (assess E cl task ?st)) = times_stalled st"
    using assess_frame [of E cl task ?st] by simp
  from turn_state [of E cl task st] consider
      (in_assess) "state_of (turn E cl task st) = state_of (assess E cl task ?st)"
    | (in_record) data s1 where "assess E cl task ?st = Go data s1"
        "state_of (turn E cl task st) = state_of (record_turn data s1)"
    | (in_stagnation) data s1 s2 where "assess E cl task ?st = Go data s1"
        "record_turn data s1 = Go () s2"
        "state_of (turn E cl task st) = state_of (stagnation E cl s2)"
    | (in_delegate) data s1 s2 where "assess E cl task ?st = Go data s1"
        "record_turn data s1 = Go () s2" "stagnation E cl s2 = Go () s2"
        "state_of (turn E cl task st) = state_of (delegate E data s2)"
    by blast
  then show ?thesis
  proof cases
    case in_assess
    with a show ?thesis by simp
  next
    case in_record
    with a record_turn_frame [of data s1] in_record show ?thesis by simp
  next
    case in_stagnation
    from in_stagnation(1) a have s1: "times_stalled s1 = times_stalled st" by simp
    from in_stagnation(1) assess_frame [of E cl task ?st]
    have c1: "checkpoints s1 = checkpoints st" by simp
    from record_turn_Go [OF in_stagnation(2)] s1 c1 obtain cp where
      s2: "times_stalled s2 = times_stalled st" "checkpoints s2 = checkpoints st @ [cp]"
      by auto
    from stagnation_times_stalled [OF refl, of E cl s2] in_stagnation(3) s2
    show ?thesis by auto
  next
    case in_delegate
    from in_delegate(1) a have s1: "times_stalled s1 = times_stalled st" by simp
    from record_turn_Go [OF in_delegate(2)] s1
    have s2: "times_stalled s2 = times_stalled st" by auto
    with in_delegate(4) delegate_frame [of E data s2] show ?thesis by simp
  qed
qed

lemma escalate_first_stall:
  "times_stalled st = 0 \<Longrightarrow> educated_guess_promt st = None \<Longrightarrow>
   escalate E cl st = Err UnboundLocalError (st\<lparr>times_stalled := 1\<rparr>)"
  by (simp add: escalate_def)

lemma turn_unstalled:
  assumes "times_stalled st = 0" and "educated_guess_promt st = None"
  shows "(turn E cl task st = Go u st' \<or> turn E cl task st = Brk l st')
     \<longrightarrow> times_stalled st' = 0 \<and> educated_guess_promt st' = None"
proof (intro impI, elim disjE)
  let ?st = "st\<lparr>total_turns := Suc (total_turns st)\<rparr>"
  assume "turn E cl task st = Go u st'"
  from turn_Go_cases [OF this] obtain data s1 s2 where a: "assess E cl task ?st = Go data s1"
    and r: "record_turn data s1 = Go () s2" and d: "delegate E data s2 = Go u st'"
    by blast
  from a assess_frame [of E cl task ?st] assms
  have "times_stalled s1 = 0 \<and> educated_guess_promt s1 = None" by simp
  with record_turn_Go [OF r] have "times_stalled s2 = 0 \<and> educated_guess_promt s2 = None" by auto
  with d delegate_frame [of E data s2]
  show "times_stalled st' = 0 \<and> educated_guess_promt st' = None" by simp
next
  let ?st = "st\<lparr>total_turns := Suc (total_turns st)\<rparr>"
  assume t: "turn E cl task st = Brk l st'"
  from turn_Brk_cases [OF t] consider
      (in_assess) "assess E cl task ?st = Brk l st'"
    | (in_stagnation) data s1 s2 where "assess E cl task ?st = Go data s1"
        "record_turn data s1 = Go () s2" "stagnation E cl s2 = Brk l st'"
    by blast
  then show "times_stalled st' = 0 \<and> educated_guess_promt st' = None"
  proof cases
    case in_assess
    with assess_frame [of E cl task ?st] assms show ?thesis by simp
  next
    case in_stagnation
    from in_stagnation(1) assess_frame [of E cl task ?st] assms
    have "times_stalled s1 = 0 \<and> educated_guess_promt s1 = None" by simp
    with record_turn_Go [OF in_stagnation(2)]
    have s2: "times_stalled s2 = 0" "educated_guess_promt s2 = None" by auto
    from stagnation_cases [OF in_stagnation(3)] have "escalate E cl s2 = Brk l st'" by auto
    with escalate_first_stall [OF s2, of E cl] show ?thesis by simp
  qed
qed

lemma step_unstalled: "unstalled c \<Longrightarrow> unstalled (step E cl task c)"
proof (cases c)
  case (AtOuter st)
  assume "unstalled c"
  with AtOuter show ?thesis by (simp add: round_init_frame)
next
  case (AtInner st)
  assume "unstalled c"
  with AtInner have s: "times_stalled st = 0" "educated_guess_promt st = None" by simp_all
  show ?thesis
  proof (cases "turn E cl task st")
    case (Go u s')
    with turn_unstalled [OF s, of E cl task u s'] AtInner s show ?thesis by simp
  next
    case (Brk l s')
    with turn_unstalled [OF s, of E cl task _ s' l] AtInner s show ?thesis by simp
  next
    case (Ret s')
    with AtInner s show ?thesis by simp
  next
    case (Err e s')
    with AtInner s show ?thesis by simp
  qed
next
  case (Halted out)
  then show ?thesis by simp
qed

lemma run_never_past_first_stall:
  assumes "bootstrap E cl messages st = Inr (task, st0)"
  shows "unstalled ((step E cl task ^^ n) (AtOuter st0))"
proof (induction n)
  case 0
  from bootstrap_total_turns [OF assms] show ?case by simp
next
  case (Suc n)
  then show ?case by (simp add: step_unstalled del: step.simps)
qed

subsection \<open>Lists of workers and updated answers\<close>

lemma list_all_enumerate:
  "list_all (\<lambda>(i, a). P a) (enumerate n xs) = list_all P xs"
  by (induction xs arbitrary: n) simp_all


lemma sends_all_silent:
  "list_all (\<lambda>(i, a). JStr (name a) \<noteq> speaker) as \<Longrightarrow>
   sends m [Named speaker] [] as = map (\<lambda>(i, a). Send m i True) as"
  by (induction as) (auto simp add: listed_def)


lemma find_speaker_None:
  "list_all (\<lambda>(i, a). JStr (name a) \<noteq> speaker) as \<Longrightarrow> find_speaker speaker as = None"
  by (induction as) auto


lemma answer_update_other:
  "k \<noteq> k' \<Longrightarrow> answer (JObj (AList.update k v kvs)) k' = answer (JObj kvs) k'"
  by (simp add: answer_def update_conv')


lemma answer_update_same:
  "answer (JObj (AList.update k (JObj [(''reason'', r), (''answer'', v)]) kvs)) k = Inr v"
  by (simp add: answer_def update_conv')


subsection \<open>The example inputs evaluated\<close>

lemma example_env_simps:
  "agents example_env = [solver]" "loads example_env = example_loads"
  "extract_code example_env = (\<lambda>c. [])" "self_name example_env = ''orchestrator''"
  "sender_name example_env = ''user_proxy''"
  "generate_reply example_env = (\<lambda>i n. JStr ''Working on it.'')"
  by (simp_all add: example_env_def)

lemma code_env_simps:
  "agents code_env = [solver, runner]" "loads code_env = example_loads"
  "sender_name code_env = ''user_proxy''"
  "execution_enabled_agents code_env = [runner]"
  "code_blocks code_env (Val (JStr script_reply)) = [(''python'', ''print(2 + 2)'')]"
  by (simp_all add: code_env_def execution_enabled_agents_def code_blocks_def
        solver_def runner_def)

lemma example_loads_simps:
  "example_loads flat_text = Some flat_data"
  "example_loads zero_text = Some zero_data"
  "example_loads done_text = Some done_data"
  "example_loads no_guess_text = Some no_guess_data"
  "example_loads garbage_text = None"
  by (simp_all add: example_loads_def flat_text_def zero_text_def done_text_def
        no_guess_text_def garbage_text_def)

lemma flat_answers:
  "answer flat_data ''instruction_or_question'' = Inr (JStr ''Try again.'')"
  "answer flat_data ''current_evaluation'' = Inr (JInt 50)"
  "answer flat_data ''is_request_satisfied'' = Inr (JBool False)"
  "answer flat_data ''is_progress_being_made'' = Inr (JBool False)"
  "answer flat_data ''next_speaker'' = Inr (JStr ''Solver'')"
  by (simp_all add: answer_def flat_data_def)

lemma zero_answers:
  "answer zero_data ''instruction_or_question'' = Inr (JStr ''Report the sum.'')"
  "answer zero_data ''current_evaluation'' = Inr (JInt 0)"
  "answer zero_data ''is_request_satisfied'' = Inr (JBool True)"
  by (simp_all add: answer_def zero_data_def)

lemma done_answers:
  "answer done_data ''instruction_or_question'' = Inr (JStr ''Report the sum.'')"
  "answer done_data ''current_evaluation'' = Inr (JInt 90)"
  "answer done_data ''is_request_satisfied'' = Inr (JBool True)"
  by (simp_all add: answer_def done_data_def)

lemma bootstrap_example:
  "bootstrap example_env cl example_messages fresh = Inr (example_task, booted cl)"
  by (simp add: booted_def bootstrap_def example_messages_def create_def Let_def)

lemma booted_simps:
  "checkpoints (booted cl) = []" "total_turns (booted cl) = 0" "times_stalled (booted cl) = 0"
  "educated_guess_promt (booted cl) = None" "facts (booted cl) = cl 0" "plan (booted cl) = cl 1"
  by (simp_all add: booted_def bootstrap_def example_messages_def create_def Let_def fresh_def)

lemma first_round_simps:
  "checkpoints (first_round cl) = []" "total_turns (first_round cl) = 0"
  "times_stalled (first_round cl) = 0" "educated_guess_promt (first_round cl) = None"
  "orchestrated_messages (first_round cl) \<noteq> []"
  using round_init_frame [of example_env example_task "booted cl"]
  by (simp_all add: first_round_def booted_simps)

text \<open>An oracle that answers every request with the same text.\<close>

lemma garbage_turn:
  "orchestrated_messages st \<noteq> [] \<Longrightarrow>
   \<exists>s. turn example_env (\<lambda>n. garbage_text) task st = Brk 308 s"
  by (simp add: turn_def assess_def code_blocks_def example_env_simps normal_path_def
        ask_popped_eq example_loads_simps)

lemma decided_assess:
  assumes "orchestrated_messages st \<noteq> []"
    and "example_loads (cl (queries st)) = Some d"
    and "example_loads (cl (Suc (Suc (queries st)))) = Some d"
    and "answer d ''instruction_or_question'' = Inr i"
    and "answer d ''current_evaluation'' = Inr (JInt e)"
  shows "\<exists>s. assess example_env cl task st = Go d s
     \<and> checkpoints s = checkpoints st
     \<and> orchestrated_messages s = orchestrated_messages st
     \<and> times_stalled s = times_stalled st
     \<and> educated_guess_promt s = educated_guess_promt st
     \<and> total_turns s = total_turns st
     \<and> facts s = facts st \<and> plan s = plan st
     \<and> queries s = Suc (Suc (Suc (queries st)))"
  using assms
  by (simp add: assess_def code_blocks_def example_env_simps normal_path_def ask_popped_eq
        keep_best_def cmp_int_def broadcast_def)

lemma satisfied_turn:
  assumes "orchestrated_messages st \<noteq> []" and "example_loads answer_text = Some d"
    and "answer d ''instruction_or_question'' = Inr i"
    and "answer d ''current_evaluation'' = Inr (JInt e)"
    and "answer d ''is_request_satisfied'' = Inr (JBool True)"
  shows "\<exists>s. turn example_env (\<lambda>n. answer_text) task st = Ret s
     \<and> map evaluation (checkpoints s) = map evaluation (checkpoints st) @ [JInt e]"
proof -
  obtain s1 where a: "assess example_env (\<lambda>n. answer_text) task (st\<lparr>total_turns := Suc (total_turns st)\<rparr>) = Go d s1"
    and c: "checkpoints s1 = checkpoints st"
    using decided_assess [of "st\<lparr>total_turns := Suc (total_turns st)\<rparr>" "\<lambda>n. answer_text" d i e task]
      assms
    by auto
  show ?thesis
    by (simp add: turn_def a record_turn_def assms save_checkpoint_def c Let_def)
qed

lemma flat_turn_goes_on:
  assumes "orchestrated_messages st \<noteq> []" and "length (checkpoints st) < 2"
  shows "\<exists>s. turn example_env (\<lambda>n. flat_text) task st = Go () s
     \<and> map evaluation (checkpoints s) = map evaluation (checkpoints st) @ [JInt 50]
     \<and> orchestrated_messages s \<noteq> []
     \<and> times_stalled s = times_stalled st
     \<and> educated_guess_promt s = educated_guess_promt st
     \<and> total_turns s = Suc (total_turns st)"
proof -
  obtain s1 where a: "assess example_env (\<lambda>n. flat_text) task (st\<lparr>total_turns := Suc (total_turns st)\<rparr>) = Go flat_data s1"
    and c: "checkpoints s1 = checkpoints st" "orchestrated_messages s1 = orchestrated_messages st"
      "times_stalled s1 = times_stalled st" "educated_guess_promt s1 = educated_guess_promt st"
      "total_turns s1 = Suc (total_turns st)"
    using decided_assess [of "st\<lparr>total_turns := Suc (total_turns st)\<rparr>" "\<lambda>n. flat_text" flat_data _ 50 task]
      assms(1) example_loads_simps(1) flat_answers(1,2)
    by auto
  show ?thesis
    using assms(2)
    by (simp add: turn_def a record_turn_def flat_answers save_checkpoint_def c Let_def
          stagnation_def delegate_def broadcast_def example_env_simps solver_def)
qed

lemma flat_turn_raises:
  assumes "orchestrated_messages st \<noteq> []"
    and "map evaluation (checkpoints st) = [JInt 50, JInt 50]"
    and "times_stalled st = 0" and "educated_guess_promt st = None"
  shows "\<exists>s. turn example_env (\<lambda>n. flat_text) task st = Err UnboundLocalError s
     \<and> map evaluation (checkpoints s) = [JInt 50, JInt 50, JInt 50]
     \<and> times_stalled s = 1"
proof -
  obtain s1 where a: "assess example_env (\<lambda>n. flat_text) task (st\<lparr>total_turns := Suc (total_turns st)\<rparr>) = Go flat_data s1"
    and c: "checkpoints s1 = checkpoints st" "orchestrated_messages s1 = orchestrated_messages st"
      "times_stalled s1 = times_stalled st" "educated_guess_promt s1 = educated_guess_promt st"
      "total_turns s1 = Suc (total_turns st)"
    using decided_assess [of "st\<lparr>total_turns := Suc (total_turns st)\<rparr>" "\<lambda>n. flat_text" flat_data _ 50 task]
      assms(1) example_loads_simps(1) flat_answers(1,2)
    by auto
  from assms(2) have l: "length (checkpoints st) = 2"
    by (metis length_map length_Cons list.size(3) numeral_2_eq_2)
  show ?thesis
    using assms(2,3,4) l
    by (simp add: turn_def a record_turn_def flat_answers save_checkpoint_def c Let_def
          stagnation_def last_evaluations_def cmp_int_def escalate_def)
qed


lemma stalled_once_simps:
  "orchestrated_messages stalled_once \<noteq> []"
  "checkpoints stalled_once = [flat_checkpoint, flat_checkpoint, flat_checkpoint]"
  "evaluation flat_checkpoint = JInt 50"
  "times_stalled stalled_once = 1" "educated_guess_promt stalled_once = None"
  "queries stalled_once = 11" "total_turns stalled_once = 3"
  "facts stalled_once = ''2 and 2 are given.''" "plan stalled_once = ''Ask Solver.''"
  by (simp_all add: stalled_once_def round_init_def broadcast_def Let_def fresh_def
        flat_checkpoint_def)

lemma guess_declined_turn:
  "\<exists>s. turn example_env guess_declined example_task stalled_once = Brk 474 s
     \<and> checkpoints s = [] \<and> times_stalled s = 2"
proof -
  obtain s1 where a: "assess example_env guess_declined example_task
        (stalled_once\<lparr>total_turns := 4\<rparr>) = Go flat_data s1"
    and c: "checkpoints s1 = checkpoints stalled_once"
      "times_stalled s1 = 1" "educated_guess_promt s1 = None"
      "facts s1 = facts stalled_once" "plan s1 = plan stalled_once" "queries s1 = 14"
    using decided_assess [of "stalled_once\<lparr>total_turns := 4\<rparr>"
        guess_declined flat_data _ 50 example_task]
      example_loads_simps(1) flat_answers(1,2)
    by (auto simp add: stalled_once_simps guess_declined_def)
  have g: "answer no_guess_data ''has_educated_guesses'' = Inr (JBool False)"
    by (simp add: answer_def no_guess_data_def)
  show ?thesis
    by (simp add: turn_def a record_turn_def flat_answers save_checkpoint_def c Let_def
          stagnation_def last_evaluations_def cmp_int_def escalate_def stalled_once_simps
          ask_popped_eq guess_declined_def example_env_simps example_loads_simps g create_def)
qed

lemma garbage_turn_frame:
  assumes "orchestrated_messages st \<noteq> []"
  shows "\<exists>s. turn example_env (\<lambda>n. garbage_text) task st = Brk 308 s
     \<and> checkpoints s = checkpoints st \<and> total_turns s = Suc (total_turns st)"
  using assms
  by (simp add: turn_def assess_def code_blocks_def example_env_simps normal_path_def
        ask_popped_eq example_loads_simps)

lemma garbage_loop:
  assumes "E = example_env" and "cl = (\<lambda>n. garbage_text)"
    and "\<And>out. c \<noteq> Halted out"
    and "\<And>st. c = AtInner st \<Longrightarrow> orchestrated_messages st \<noteq> []"
    and "total_turns (conf_state c) \<le> max_turns"
  shows "\<exists>s. main_loop E cl task c = Returned True (Some ''TERMINATE'') s
     \<and> total_turns s = max_turns \<and> checkpoints s = checkpoints (conf_state c)"
  using assms
proof (induction E cl task c rule: main_loop.induct)
  case (1 E cl task out)
  then show ?case by blast
next
  case (2 E cl task st)
  show ?case
  proof (cases "total_turns st < max_turns")
    case True
    have "\<exists>s. main_loop E cl task (step E cl task (AtOuter st)) = Returned True (Some ''TERMINATE'') s
       \<and> total_turns s = max_turns
       \<and> checkpoints s = checkpoints (conf_state (step E cl task (AtOuter st)))"
      using True 2(2,3,6) round_init_frame [of E task st]
      by (intro 2(1)) simp_all
    with True show ?thesis using round_init_frame [of E task st] by simp
  next
    case False
    with 2(6) show ?thesis by simp
  qed
next
  case (3 E cl task st)
  show ?case
  proof (cases "total_turns st < max_turns")
    case True
    from 3(5) have om: "orchestrated_messages st \<noteq> []" by simp
    obtain s1 where t: "turn E cl task st = Brk 308 s1"
      and f: "checkpoints s1 = checkpoints st" "total_turns s1 = Suc (total_turns st)"
      using garbage_turn_frame [OF om, of task] 3(2,3) by auto
    have "\<exists>s. main_loop E cl task (step E cl task (AtInner st)) = Returned True (Some ''TERMINATE'') s
       \<and> total_turns s = max_turns
       \<and> checkpoints s = checkpoints (conf_state (step E cl task (AtInner st)))"
      using True 3(2,3) t f by (intro 3(1)) simp_all
    with True t f show ?thesis by simp
  next
    case False
    have "\<exists>s. main_loop E cl task (step E cl task (AtInner st)) = Returned True (Some ''TERMINATE'') s
       \<and> total_turns s = max_turns
       \<and> checkpoints s = checkpoints (conf_state (step E cl task (AtInner st)))"
      using False 3(2,3,6) by (intro 3(1)) simp_all
    with False show ?thesis by simp
  qed
qed

lemma garbage_run:
  "\<exists>s. run_chat example_env (Some (\<lambda>n. garbage_text)) example_messages fresh
        = Returned True (Some ''TERMINATE'') s
     \<and> total_turns s = 30 \<and> checkpoints s = []"
  using garbage_loop [of example_env "\<lambda>n. garbage_text" "AtOuter (booted (\<lambda>n. garbage_text))" example_task]
  by (simp add: run_chat_def bootstrap_example booted_simps max_turns_def del: main_loop.simps)

subsection \<open>Where a kept answer comes from\<close>

lemma keep_best_cases:
  "keep_best data data2 cur_plan new_plan = Inr (best, best_plan) \<Longrightarrow>
     (best = data2 \<and> best_plan = new_plan) \<or> (best = data \<and> best_plan = cur_plan)"
  by (auto simp add: keep_best_def split: sum.splits if_splits)

lemma normal_path_Go:
  "normal_path E cl task st = Go kept st' \<Longrightarrow>
     \<exists>d d2. loads E (cl (queries st)) = Some d
       \<and> loads E (cl (Suc (Suc (queries st)))) = Some d2
       \<and> keep_best d d2 (plan st) (cl (Suc (queries st))) = Inr (kept, plan st')"
  by (auto simp add: normal_path_def ask_popped_eq broadcast_def
        split: option.splits sum.splits prod.splits)

lemma forced_answers:
  "answer (forced executor kvs) ''next_speaker'' = Inr (JStr executor)"
  "answer (forced executor kvs) ''instruction_or_question'' = Inr (JStr ''Please execute the above script.'')"
  "answer (forced executor kvs) ''current_evaluation'' = answer (JObj kvs) ''current_evaluation''"
  by (simp_all add: forced_def answer_update_other answer_update_same)

lemma fast_path_Go:
  assumes "fast_path E cl task st = Go data st'"
  shows "\<exists>kvs a rest. loads E (cl (queries st)) = Some (JObj kvs)
     \<and> execution_enabled_agents E = a # rest \<and> data = forced (name a) kvs"
proof -
  from assms obtain d where l: "loads E (cl (queries st)) = Some d"
    by (auto simp add: fast_path_def ask_popped_eq split: option.splits)
  from assms l obtain a rest where x: "execution_enabled_agents E = a # rest"
    by (cases "execution_enabled_agents E") (auto simp add: fast_path_def ask_popped_eq)
  from assms l x obtain kvs where d: "d = JObj kvs"
    by (cases d) (auto simp add: fast_path_def ask_popped_eq)
  from assms l x d show ?thesis
    by (simp add: fast_path_def ask_popped_eq forced_def)
qed

lemma assess_Go_source:
  assumes "assess E cl task st = Go data st'"
  shows "\<exists>n d. loads E (cl n) = Some d
     \<and> answer data ''current_evaluation'' = answer d ''current_evaluation''"
proof -
  from assms consider (fast) "fast_path E cl task st = Go data st'"
    | (normal) "normal_path E cl task st = Go data st'"
    by (auto simp add: assess_def split: if_splits)
  then show ?thesis
  proof cases
    case fast
    from fast_path_Go [OF fast] obtain kvs and a :: agent where
      l: "loads E (cl (queries st)) = Some (JObj kvs)" and d: "data = forced (name a) kvs"
      by blast
    have "answer data ''current_evaluation'' = answer (JObj kvs) ''current_evaluation''"
      by (simp add: d forced_answers)
    with l show ?thesis by blast
  next
    case normal
    from normal_path_Go [OF normal] obtain d d2 where
      l: "loads E (cl (queries st)) = Some d" "loads E (cl (Suc (Suc (queries st)))) = Some d2"
      and k: "keep_best d d2 (plan st) (cl (Suc (queries st))) = Inr (data, plan st')"
      by blast
    from keep_best_cases [OF k] l show ?thesis by blast
  qed
qed

lemma scores_ok_append:
  "scores_ok st \<Longrightarrow> score_ok ev \<Longrightarrow> checkpoints s = checkpoints st @ [\<lparr>cp_plan = p, evaluation = ev, response = r\<rparr>]
   \<Longrightarrow> scores_ok s"
  by (simp add: scores_ok_def)

lemma turn_scores_ok:
  assumes o: "oracle_scores_ok E cl" and s: "scores_ok st"
  shows "scores_ok (state_of (turn E cl task st))"
proof -
  let ?st = "st\<lparr>total_turns := Suc (total_turns st)\<rparr>"
  have recorded: "scores_ok (state_of (record_turn data s1))"
    if a: "assess E cl task ?st = Go data s1" for data s1
  proof -
    from a assess_frame [of E cl task ?st] have c1: "checkpoints s1 = checkpoints st" by simp
    from assess_Go_source [OF a] obtain n d where
      src: "loads E (cl n) = Some d"
        "answer data ''current_evaluation'' = answer d ''current_evaluation''"
      by blast
    from record_turn_checkpoints [of data s1] show ?thesis
    proof
      assume "checkpoints (state_of (record_turn data s1)) = checkpoints s1"
      with c1 s show ?thesis by (simp add: scores_ok_def)
    next
      assume "\<exists>ev instruction. answer data ''current_evaluation'' = Inr ev \<and>
        checkpoints (state_of (record_turn data s1)) =
          checkpoints s1 @ [\<lparr>cp_plan = plan s1, evaluation = ev, response = instruction\<rparr>]"
      then obtain ev instruction where ev: "answer data ''current_evaluation'' = Inr ev"
        and c: "checkpoints (state_of (record_turn data s1)) =
          checkpoints s1 @ [\<lparr>cp_plan = plan s1, evaluation = ev, response = instruction\<rparr>]"
        by blast
      from o src ev have "score_ok ev" by (simp add: oracle_scores_ok_def)
      with c c1 s show ?thesis by (simp add: scores_ok_def)
    qed
  qed
  from turn_state [of E cl task st] consider
      (in_assess) "state_of (turn E cl task st) = state_of (assess E cl task ?st)"
    | (in_record) data s1 where "assess E cl task ?st = Go data s1"
        "state_of (turn E cl task st) = state_of (record_turn data s1)"
    | (in_stagnation) data s1 s2 where "assess E cl task ?st = Go data s1"
        "record_turn data s1 = Go () s2"
        "state_of (turn E cl task st) = state_of (stagnation E cl s2)"
    | (in_delegate) data s1 s2 where "assess E cl task ?st = Go data s1"
        "record_turn data s1 = Go () s2" "stagnation E cl s2 = Go () s2"
        "state_of (turn E cl task st) = state_of (delegate E data s2)"
    by blast
  then show ?thesis
  proof cases
    case in_assess
    with assess_frame [of E cl task ?st] s show ?thesis by (simp add: scores_ok_def)
  next
    case in_record
    with recorded show ?thesis by simp
  next
    case in_stagnation
    from recorded [OF in_stagnation(1)] in_stagnation(2) have "scores_ok s2" by simp
    with stagnation_checkpoints [of E cl s2] in_stagnation(3) show ?thesis
      by (auto simp add: scores_ok_def)
  next
    case in_delegate
    from recorded [OF in_delegate(1)] in_delegate(2) have "scores_ok s2" by simp
    with delegate_frame [of E data s2] in_delegate(4) show ?thesis
      by (simp add: scores_ok_def)
  qed
qed

lemma step_scores_ok:
  assumes "oracle_scores_ok E cl" and "scores_ok (conf_state c)"
  shows "scores_ok (conf_state (step E cl task c))"
proof (cases c)
  case (AtOuter st)
  with assms(2) show ?thesis by (simp add: scores_ok_def round_init_frame)
next
  case (AtInner st)
  with assms(2) have "scores_ok (state_of (turn E cl task st))"
    using turn_scores_ok [OF assms(1), of st task] by simp
  with AtInner assms(2) show ?thesis by (cases "turn E cl task st") auto
next
  case (Halted out)
  with assms(2) show ?thesis by simp
qed

lemma satisfied_run:
  assumes "example_loads answer_text = Some d"
    and "answer d ''instruction_or_question'' = Inr i"
    and "answer d ''current_evaluation'' = Inr (JInt e)"
    and "answer d ''is_request_satisfied'' = Inr (JBool True)"
  shows "\<exists>s. run_chat example_env (Some (\<lambda>n. answer_text)) example_messages fresh
        = Returned True (Some ''TERMINATE'') s
     \<and> map evaluation (checkpoints s) = [JInt e]"
proof -
  let ?cl = "\<lambda>n::nat. answer_text"
  obtain s where t: "turn example_env ?cl example_task (first_round ?cl) = Ret s"
    and f: "map evaluation (checkpoints s) = [JInt e]"
    using satisfied_turn [OF first_round_simps(5) [of ?cl] assms, of example_task]
    by (auto simp add: first_round_simps)
  have "run_chat example_env (Some ?cl) example_messages fresh
        = main_loop example_env ?cl example_task (AtOuter (booted ?cl))"
    by (simp add: run_chat_def bootstrap_example del: main_loop.simps)
  also have "\<dots> = main_loop example_env ?cl example_task (AtInner (first_round ?cl))"
    by (subst main_loop.simps) (simp add: booted_simps max_turns_def first_round_def del: main_loop.simps)
  also have "\<dots> = Returned True (Some ''TERMINATE'') s"
    by (subst main_loop.simps) (simp add: first_round_simps max_turns_def t)
  finally show ?thesis using f by simp
qed

subsection \<open>The turns of a run\<close>

lemma delegate_Go_log:
  "delegate E data st = Go u st' \<Longrightarrow> orchestrated_messages st' \<noteq> []"
  by (auto simp add: delegate_def broadcast_def Let_def split: sum.splits option.splits prod.splits)

lemma step_logged: "logged c \<Longrightarrow> logged (step E cl task c)"
proof (cases c)
  case (AtOuter st)
  then show ?thesis by (simp add: round_init_def broadcast_def Let_def)
next
  case (AtInner st)
  show ?thesis
  proof (cases "turn E cl task st")
    case (Go u s')
    from turn_Go_cases [OF Go] obtain data s2 where "delegate E data s2 = Go u s'" by blast
    from delegate_Go_log [OF this] AtInner Go show ?thesis by simp
  qed (use AtInner in simp_all)
next
  case (Halted out)
  then show ?thesis by simp
qed

lemma run_logged: "logged ((step E cl task ^^ n) (AtOuter st0))"
proof (induction n)
  case 0
  show ?case by simp
next
  case (Suc n)
  then show ?case by (simp add: step_logged del: step.simps)
qed

lemma first_parse_failure:
  assumes "orchestrated_messages st \<noteq> []" and "loads E (cl (queries st)) = None"
  shows "\<exists>st'. turn E cl task st =
           Brk (if code_blocks E (content (last (orchestrated_messages st))) \<noteq> []
                     \<and> execution_enabled_agents E \<noteq> []
                then 249 else 308) st'"
  using assms
  by (simp add: turn_def assess_def fast_path_def normal_path_def ask_popped_eq)

lemma second_parse_failure:
  assumes "orchestrated_messages st \<noteq> []"
    and "code_blocks E (content (last (orchestrated_messages st))) = [] \<or> execution_enabled_agents E = []"
    and "loads E (cl (queries st)) = Some d"
    and "answer d ''instruction_or_question'' = Inr i"
    and "answer d ''current_evaluation'' = Inr e"
    and "loads E (cl (Suc (Suc (queries st)))) = None"
  shows "\<exists>st'. turn E cl task st = Brk 363 st'"
  using assms
  by (auto simp add: turn_def assess_def normal_path_def ask_popped_eq broadcast_def)

lemma turn_Brk_frame:
  assumes "turn E cl task st = Brk l st'"
  shows "(l = 249 \<or> l = 308 \<or> l = 363 \<or> l = 429 \<or> l = 474)
    \<and> total_turns st' = Suc (total_turns st)
    \<and> (l = 249 \<or> l = 308 \<or> l = 363 \<longrightarrow> same_memory st st')"
proof -
  let ?st = "st\<lparr>total_turns := Suc (total_turns st)\<rparr>"
  have tt: "total_turns st' = Suc (total_turns st)"
    using turn_total_turns [of E cl task st] assms by simp
  from turn_Brk_cases [OF assms] consider
      (in_assess) "assess E cl task ?st = Brk l st'"
    | (in_stagnation) data s1 s2 where "assess E cl task ?st = Go data s1"
        "record_turn data s1 = Go () s2" "stagnation E cl s2 = Brk l st'"
    by blast
  then show ?thesis
  proof cases
    case in_assess
    from assess_Brk [OF in_assess] have "l = 249 \<or> l = 308 \<or> l = 363" and "same_memory st st'"
      by (simp_all add: same_memory_def)
    with tt show ?thesis by auto
  next
    case in_stagnation
    from stagnation_cases [OF in_stagnation(3)] have e: "escalate E cl s2 = Brk l st'" by auto
    from escalate_cases [OF e] tt show ?thesis by auto
  qed
qed

lemma unstalled_break:
  assumes "times_stalled st = 0" and "educated_guess_promt st = None"
    and "turn E cl task st = Brk l st'"
  shows "l = 249 \<or> l = 308 \<or> l = 363"
proof -
  let ?st = "st\<lparr>total_turns := Suc (total_turns st)\<rparr>"
  from turn_Brk_cases [OF assms(3)] consider
      (in_assess) "assess E cl task ?st = Brk l st'"
    | (in_stagnation) data s1 s2 where "assess E cl task ?st = Go data s1"
        "record_turn data s1 = Go () s2" "stagnation E cl s2 = Brk l st'"
    by blast
  then show ?thesis
  proof cases
    case in_assess
    from assess_Brk [OF in_assess] show ?thesis by simp
  next
    case in_stagnation
    from in_stagnation(1) assess_frame [of E cl task ?st] assms
    have "times_stalled s1 = 0 \<and> educated_guess_promt s1 = None" by simp
    with record_turn_Go [OF in_stagnation(2)]
    have s2: "times_stalled s2 = 0" "educated_guess_promt s2 = None" by auto
    from stagnation_cases [OF in_stagnation(3)] have "escalate E cl s2 = Brk l st'" by auto
    with escalate_first_stall [OF s2, of E cl] show ?thesis by simp
  qed
qed

lemma queries_simps:
  "queries (booted cl) = 2" "queries (first_round cl) = 2"
  by (simp_all add: first_round_def round_init_def broadcast_def booted_def bootstrap_def
        example_messages_def create_def Let_def fresh_def)

lemma first_round_reached:
  "(step example_env cl example_task ^^ Suc 0) (AtOuter (booted cl)) = AtInner (first_round cl)"
  by (simp add: booted_simps max_turns_def first_round_def)

subsection \<open>What a turn records\<close>

lemma record_turn_saves:
  assumes "answer data ''current_evaluation'' = Inr ev"
    and "answer data ''instruction_or_question'' = Inr r"
  shows "checkpoints (state_of (record_turn data st)) =
           checkpoints st @ [\<lparr>cp_plan = plan st, evaluation = ev, response = r\<rparr>]"
  using assms
  by (simp add: record_turn_def save_checkpoint_def Let_def split: sum.splits)

lemma stagnation_clears:
  "checkpoints (state_of (stagnation E cl st)) = checkpoints st
   \<or> (break_line (stagnation E cl st) = Some 474 \<and> checkpoints (state_of (stagnation E cl st)) = [])"
  using stagnation_cases [OF refl, of E cl st] escalate_cases [OF refl, of E cl st]
  by (cases "escalate E cl st") auto

lemma turn_records:
  assumes a: "assess E cl task (st\<lparr>total_turns := Suc (total_turns st)\<rparr>) = Go data s1"
    and ev: "answer data ''current_evaluation'' = Inr ev"
    and r: "answer data ''instruction_or_question'' = Inr r"
  shows "checkpoints (state_of (turn E cl task st)) =
           checkpoints st @ [\<lparr>cp_plan = plan s1, evaluation = ev, response = r\<rparr>]
         \<or> (break_line (turn E cl task st) = Some 474
              \<and> checkpoints (state_of (turn E cl task st)) = [])"
proof -
  let ?st = "st\<lparr>total_turns := Suc (total_turns st)\<rparr>"
  from a assess_frame [of E cl task ?st] have c1: "checkpoints s1 = checkpoints st" by simp
  note s = record_turn_saves [OF ev r, of s1]
  show ?thesis
  proof (cases "record_turn data s1")
    case g2: (Go u s2)
    with s c1 have c2: "checkpoints s2 =
        checkpoints st @ [\<lparr>cp_plan = plan s1, evaluation = ev, response = r\<rparr>]" by simp
    show ?thesis
    proof (cases "stagnation E cl s2")
      case g3: (Go v s3)
      have "s3 = s2"
        using stagnation_cases [OF g3] escalate_cases [of E cl s2 "Go v s3"] by auto
      with a g2 g3 have "turn E cl task st = delegate E data s2" by (simp add: turn_def)
      with delegate_frame [of E data s2] c2 show ?thesis by simp
    next
      case (Brk l s')
      with a g2 have "turn E cl task st = Brk l s'" by (simp add: turn_def)
      with stagnation_clears [of E cl s2] Brk c2 show ?thesis by auto
    next
      case (Ret s')
      with a g2 have "turn E cl task st = Ret s'" by (simp add: turn_def)
      with stagnation_clears [of E cl s2] Ret c2 show ?thesis by auto
    next
      case (Err e s')
      with a g2 have "turn E cl task st = Err e s'" by (simp add: turn_def)
      with stagnation_clears [of E cl s2] Err c2 show ?thesis by auto
    qed
  next
    case (Brk l s')
    with record_turn_no_Brk show ?thesis by blast
  next
    case (Ret s')
    with a have "turn E cl task st = Ret s'" by (simp add: turn_def)
    with s c1 Ret show ?thesis by simp
  next
    case (Err e s')
    with a have "turn E cl task st = Err e s'" by (simp add: turn_def)
    with s c1 Err show ?thesis by simp
  qed
qed

lemma turn_checkpoints:
  "checkpoints (state_of (turn E cl task st)) = checkpoints st
   \<or> checkpoints (state_of (turn E cl task st)) = []
   \<or> (\<exists>data s1 ev r.
        assess E cl task (st\<lparr>total_turns := Suc (total_turns st)\<rparr>) = Go data s1
        \<and> answer data ''current_evaluation'' = Inr ev
        \<and> answer data ''instruction_or_question'' = Inr r
        \<and> checkpoints (state_of (turn E cl task st)) =
             checkpoints st @ [\<lparr>cp_plan = plan s1, evaluation = ev, response = r\<rparr>])"
proof -
  let ?st = "st\<lparr>total_turns := Suc (total_turns st)\<rparr>"
  show ?thesis
  proof (cases "assess E cl task ?st")
    case (Go data s1)
    show ?thesis
    proof (cases "\<exists>ev r. answer data ''current_evaluation'' = Inr ev
        \<and> answer data ''instruction_or_question'' = Inr r")
      case True
      then obtain ev r where "answer data ''current_evaluation'' = Inr ev"
        "answer data ''instruction_or_question'' = Inr r" by blast
      with turn_records [OF Go this] Go show ?thesis by blast
    next
      case False
      then have "\<exists>e. record_turn data s1 = Err e s1"
        by (auto simp add: record_turn_def split: sum.splits)
      then obtain e where "record_turn data s1 = Err e s1" by blast
      with Go have "turn E cl task st = Err e s1" by (simp add: turn_def)
      with Go assess_frame [of E cl task ?st] show ?thesis by simp
    qed
  next
    case (Brk l s')
    then have "turn E cl task st = Brk l s'" by (simp add: turn_def)
    with Brk assess_frame [of E cl task ?st] show ?thesis by simp
  next
    case (Ret s')
    then have "turn E cl task st = Ret s'" by (simp add: turn_def)
    with Ret assess_frame [of E cl task ?st] show ?thesis by simp
  next
    case (Err e s')
    then have "turn E cl task st = Err e s'" by (simp add: turn_def)
    with Err assess_frame [of E cl task ?st] show ?thesis by simp
  qed
qed

lemma run_scores_ok:
  assumes "oracle_scores_ok E cl" and "scores_ok st"
    and "bootstrap E cl messages st = Inr (task, st0)"
  shows "scores_ok (conf_state ((step E cl task ^^ n) (AtOuter st0)))"
proof (induction n)
  case 0
  from bootstrap_total_turns [OF assms(3)] assms(2) show ?case by (simp add: scores_ok_def)
next
  case (Suc n)
  then show ?case using step_scores_ok [OF assms(1)] by (simp del: step.simps)
qed

subsection \<open>The normal path carried through\<close>

lemma normal_path_keeps:
  assumes "loads E (cl (queries st)) = Some cand1"
    and "answer cand1 ''instruction_or_question'' = Inr i1"
    and "answer cand1 ''current_evaluation'' = Inr v1"
    and "loads E (cl (Suc (Suc (queries st)))) = Some cand2"
    and "answer cand2 ''instruction_or_question'' = Inr i2"
    and "answer cand2 ''current_evaluation'' = Inr v2"
    and "py_cmp GT v2 v1 = Inr better"
  shows "\<exists>s. normal_path E cl task st = Go (if better then cand2 else cand1) s
     \<and> plan s = (if better then cl (Suc (queries st)) else plan st)"
  using assms
  by (simp add: normal_path_def ask_popped_eq keep_best_def broadcast_def)

section \<open>The claims\<close>

subsection \<open>C1: the first stall\<close>

text \<open>
  C1 says that the escalation (the educated-guess query, the rewrite of the facts and of the
  plan, the clearing of the checkpoint log, the break) runs only once \<^verbatim>\<open>times_stalled\<close> has
  reached 2, and that the first stall only counts and lets the turn go on. The source puts
  only the binding of \<^verbatim>\<open>educated_guess_promt\<close> under \<^verbatim>\<open>if times_stalled >= 2\<close>; line 414 reads
  the variable at the first stall, when it is unbound. In the run below the oracle answers
  every request with the same text, a flat assessment of score 50: the third turn finds
  three checkpoints of 50, counts the first stall, and \<^verbatim>\<open>run_chat\<close> ends with
  \<^verbatim>\<open>UnboundLocalError\<close> instead of broadcasting and delegating the instruction.
  (\<open>run_never_past_first_stall\<close> above: no run at all gets past its first stall.)
\<close>

theorem first_stall_raises_in_example_run:
  "raised (run_chat example_env (Some (\<lambda>n. flat_text)) example_messages fresh)
     = Some UnboundLocalError
   \<and> times_stalled (final_state
        (run_chat example_env (Some (\<lambda>n. flat_text)) example_messages fresh)) = 1
   \<and> map evaluation (checkpoints (final_state
        (run_chat example_env (Some (\<lambda>n. flat_text)) example_messages fresh)))
     = [JInt 50, JInt 50, JInt 50]"
proof -
  let ?cl = "\<lambda>n::nat. flat_text"
  let ?r0 = "first_round ?cl"
  obtain s1 where t1: "turn example_env ?cl example_task ?r0 = Go () s1"
    and f1: "map evaluation (checkpoints s1) = [JInt 50]" "orchestrated_messages s1 \<noteq> []"
      "times_stalled s1 = 0" "educated_guess_promt s1 = None" "total_turns s1 = 1"
    using flat_turn_goes_on [of ?r0 example_task] by (auto simp add: first_round_simps)
  from f1(1) have l1: "length (checkpoints s1) < 2"
    by (metis length_map length_Cons list.size(3) one_less_numeral_iff semiring_norm(76) One_nat_def)
  obtain s2 where t2: "turn example_env ?cl example_task s1 = Go () s2"
    and f2: "map evaluation (checkpoints s2) = [JInt 50, JInt 50]" "orchestrated_messages s2 \<noteq> []"
      "times_stalled s2 = 0" "educated_guess_promt s2 = None" "total_turns s2 = 2"
    using flat_turn_goes_on [OF f1(2) l1, of example_task] f1 by auto
  obtain s3 where t3: "turn example_env ?cl example_task s2 = Err UnboundLocalError s3"
    and f3: "map evaluation (checkpoints s3) = [JInt 50, JInt 50, JInt 50]" "times_stalled s3 = 1"
    using flat_turn_raises [OF f2(2) f2(1) f2(3) f2(4), of example_task] by auto
  have "run_chat example_env (Some ?cl) example_messages fresh
        = main_loop example_env ?cl example_task (AtOuter (booted ?cl))"
    by (simp add: run_chat_def bootstrap_example del: main_loop.simps)
  also have "\<dots> = main_loop example_env ?cl example_task (AtInner ?r0)"
    by (subst main_loop.simps) (simp add: booted_simps max_turns_def first_round_def del: main_loop.simps)
  also have "\<dots> = main_loop example_env ?cl example_task (AtInner s1)"
    by (subst main_loop.simps) (simp add: first_round_simps max_turns_def t1 del: main_loop.simps)
  also have "\<dots> = main_loop example_env ?cl example_task (AtInner s2)"
    by (subst main_loop.simps) (simp add: f1 max_turns_def t2 del: main_loop.simps)
  also have "\<dots> = Raised UnboundLocalError s3"
    by (subst main_loop.simps) (simp add: f2 max_turns_def t3)
  finally show ?thesis by (simp add: f3)
qed

subsection \<open>C2: the scores of the checkpoints\<close>

text \<open>
  C2 says that every checkpoint holds a score that is an integer from 1 to 100, whatever the
  parsed answers of the oracle are. The source stores \<^verbatim>\<open>data["current_evaluation"]["answer"]\<close>
  as it is. In the run below the oracle's answer parses, reports the request satisfied and
  rates it 0: the run returns with one checkpoint, of score 0.
\<close>

theorem score_zero_is_recorded:
  "example_loads zero_text = Some zero_data
   \<and> map evaluation (checkpoints (final_state
        (run_chat example_env (Some (\<lambda>n. zero_text)) example_messages fresh))) = [JInt 0]
   \<and> \<not> scores_ok (final_state
        (run_chat example_env (Some (\<lambda>n. zero_text)) example_messages fresh))"
proof -
  obtain s where r: "run_chat example_env (Some (\<lambda>n. zero_text)) example_messages fresh
        = Returned True (Some ''TERMINATE'') s"
    and f: "map evaluation (checkpoints s) = [JInt 0]"
    using satisfied_run [OF example_loads_simps(2) zero_answers]
    by (elim exE conjE)
  from f have "\<not> scores_ok s"
    by (cases "checkpoints s") (auto simp add: scores_ok_def)
  with r f example_loads_simps(2) show ?thesis by simp
qed

text \<open>
  C2 as amended: \<^verbatim>\<open>save_checkpoint\<close> appends the score it is given, whatever it is. A turn
  whose assessment ends with an answer to act on that has a \<^verbatim>\<open>current_evaluation\<close> and an
  \<^verbatim>\<open>instruction_or_question\<close> answer appends one checkpoint: the plan then current, that
  \<^verbatim>\<open>current_evaluation\<close> answer as the score, unchecked, and the instruction; the score is
  the \<^verbatim>\<open>current_evaluation\<close> answer of a parsed oracle text (or the turn ends at the break
  after a full re-plan, the log cleared). A turn changes the log in no other way. So in
  every run whose parsed oracle answers hold scores from 1 to 100 (and that starts with such
  checkpoints) every checkpoint log on the way holds scores from 1 to 100.
\<close>

theorem checkpoint_scores_follow_oracle:
  "checkpoints (save_checkpoint p ev r st) =
      checkpoints st @ [\<lparr>cp_plan = p, evaluation = ev, response = r\<rparr>]
   \<and> (assess E cl task (st\<lparr>total_turns := Suc (total_turns st)\<rparr>) = Go data s1
        \<and> answer data ''current_evaluation'' = Inr ev
        \<and> answer data ''instruction_or_question'' = Inr r
      \<longrightarrow> (checkpoints (state_of (turn E cl task st)) =
              checkpoints st @ [\<lparr>cp_plan = plan s1, evaluation = ev, response = r\<rparr>]
            \<or> (break_line (turn E cl task st) = Some 474
                 \<and> checkpoints (state_of (turn E cl task st)) = []))
          \<and> (\<exists>n d. loads E (cl n) = Some d \<and> answer d ''current_evaluation'' = Inr ev))
   \<and> (checkpoints (state_of (turn E cl task st)) = checkpoints st
      \<or> checkpoints (state_of (turn E cl task st)) = []
      \<or> (\<exists>data s1 ev r.
           assess E cl task (st\<lparr>total_turns := Suc (total_turns st)\<rparr>) = Go data s1
           \<and> answer data ''current_evaluation'' = Inr ev
           \<and> answer data ''instruction_or_question'' = Inr r
           \<and> checkpoints (state_of (turn E cl task st)) =
                checkpoints st @ [\<lparr>cp_plan = plan s1, evaluation = ev, response = r\<rparr>]))
   \<and> (oracle_scores_ok E cl \<and> scores_ok st0 \<and> bootstrap E cl messages st0 = Inr (task, b)
      \<longrightarrow> scores_ok (conf_state ((step E cl task ^^ n) (AtOuter b))))"
proof -
  have one: "checkpoints (save_checkpoint p ev r st) =
      checkpoints st @ [\<lparr>cp_plan = p, evaluation = ev, response = r\<rparr>]"
    by (simp add: save_checkpoint_def)
  have two: "(checkpoints (state_of (turn E cl task st)) =
              checkpoints st @ [\<lparr>cp_plan = plan s1, evaluation = ev, response = r\<rparr>]
            \<or> (break_line (turn E cl task st) = Some 474
                 \<and> checkpoints (state_of (turn E cl task st)) = []))
          \<and> (\<exists>n d. loads E (cl n) = Some d \<and> answer d ''current_evaluation'' = Inr ev)"
    if h: "assess E cl task (st\<lparr>total_turns := Suc (total_turns st)\<rparr>) = Go data s1
        \<and> answer data ''current_evaluation'' = Inr ev
        \<and> answer data ''instruction_or_question'' = Inr r"
  proof -
    from h have a: "assess E cl task (st\<lparr>total_turns := Suc (total_turns st)\<rparr>) = Go data s1"
      and e: "answer data ''current_evaluation'' = Inr ev"
      and i: "answer data ''instruction_or_question'' = Inr r" by simp_all
    from assess_Go_source [OF a] obtain n d where "loads E (cl n) = Some d"
      and "answer data ''current_evaluation'' = answer d ''current_evaluation''" by blast
    with e have "loads E (cl n) = Some d \<and> answer d ''current_evaluation'' = Inr ev" by simp
    then have "\<exists>n d. loads E (cl n) = Some d \<and> answer d ''current_evaluation'' = Inr ev"
      by blast
    with turn_records [OF a e i] show ?thesis by simp
  qed
  have four: "scores_ok (conf_state ((step E cl task ^^ n) (AtOuter b)))"
    if "oracle_scores_ok E cl \<and> scores_ok st0 \<and> bootstrap E cl messages st0 = Inr (task, b)"
    using that run_scores_ok [of E cl st0 messages task b n] by simp
  from one two turn_checkpoints [of E cl task st] four show ?thesis by blast
qed

theorem checkpoint_scores_follow_oracle_witness:
  "checkpoints (state_of (turn example_env (\<lambda>n. done_text) example_task
        (first_round (\<lambda>n. done_text))))
     = [\<lparr>cp_plan = done_text, evaluation = JInt 90, response = JStr ''Report the sum.''\<rparr>]
   \<and> scores_ok (conf_state ((step example_env (\<lambda>n. done_text) example_task ^^ 2)
      (AtOuter (booted (\<lambda>n. done_text)))))"
proof -
  let ?cl = "\<lambda>n::nat. done_text"
  have o: "oracle_scores_ok example_env ?cl"
    by (simp add: oracle_scores_ok_def example_env_simps example_loads_simps done_answers)
  have s: "scores_ok fresh"
    by (simp add: scores_ok_def fresh_def)
  obtain s1 where a: "assess example_env ?cl example_task
        ((first_round ?cl)\<lparr>total_turns := Suc (total_turns (first_round ?cl))\<rparr>) = Go done_data s1"
    and p: "plan s1 = plan ((first_round ?cl)\<lparr>total_turns := Suc (total_turns (first_round ?cl))\<rparr>)"
    using decided_assess [of "(first_round ?cl)\<lparr>total_turns := Suc (total_turns (first_round ?cl))\<rparr>"
        ?cl done_data _ 90 example_task]
      first_round_simps(5) [of ?cl] example_loads_simps(3) done_answers(1,2)
    by auto
  obtain s' where t: "turn example_env ?cl example_task (first_round ?cl) = Ret s'"
    using satisfied_turn [OF first_round_simps(5) [of ?cl] example_loads_simps(3) done_answers,
        of example_task]
    by blast
  have pl: "plan s1 = done_text"
    using p round_init_frame [of example_env example_task "booted ?cl"]
    by (simp add: first_round_def booted_simps)
  note T = checkpoint_scores_follow_oracle [where E = example_env and cl = ?cl
      and task = example_task and st = "first_round ?cl" and data = done_data and ?s1.0 = s1
      and ev = "JInt 90" and r = "JStr ''Report the sum.''" and ?st0.0 = fresh
      and messages = example_messages and b = "booted ?cl" and n = 2]
  from T a done_answers(1,2)
  have "checkpoints (state_of (turn example_env ?cl example_task (first_round ?cl))) =
          checkpoints (first_round ?cl)
            @ [\<lparr>cp_plan = plan s1, evaluation = JInt 90, response = JStr ''Report the sum.''\<rparr>]
        \<or> (break_line (turn example_env ?cl example_task (first_round ?cl)) = Some 474
             \<and> checkpoints (state_of (turn example_env ?cl example_task (first_round ?cl))) = [])"
    by simp
  with t pl have c: "checkpoints (state_of (turn example_env ?cl example_task (first_round ?cl)))
     = [\<lparr>cp_plan = done_text, evaluation = JInt 90, response = JStr ''Report the sum.''\<rparr>]"
    by (simp add: first_round_simps)
  from T o s bootstrap_example [of ?cl]
  have "scores_ok (conf_state ((step example_env ?cl example_task ^^ 2) (AtOuter (booted ?cl))))"
    by blast
  with c show ?thesis by simp
qed

subsection \<open>C3: answers that do not parse\<close>

text \<open>
  C3. In every run of \<^verbatim>\<open>run_chat\<close>, at every turn the run comes to: when the text of the
  first structured answer does not parse, the turn breaks, at line 249 on the fast path and
  at line 308 on the normal path; when on the normal path the first answer parses and holds
  its instruction and its score, and the text of the second candidate does not parse, the
  turn breaks at line 363. Every break of such a turn is one of these three: the turn is
  counted, no checkpoint is recorded, the memory of the orchestrator is as before the turn,
  the run goes back to the test of the outer loop, and the next round is briefed with the
  facts and the plan as they were. The educated-guess query is the fourth structured query
  of the source; no run issues it (\<open>run_never_past_first_stall\<close>: the first stall raises), so
  no run breaks at line 429 or 474.
\<close>

theorem parse_failure_abandons_turn:
  assumes "bootstrap E cl messages st0 = Inr (task, b)"
    and "(step E cl task ^^ n) (AtOuter b) = AtInner st"
  shows "(loads E (cl (queries st)) = None
          \<longrightarrow> (\<exists>st'. turn E cl task st =
                Brk (if code_blocks E (content (last (orchestrated_messages st))) \<noteq> []
                          \<and> execution_enabled_agents E \<noteq> []
                     then 249 else 308) st'))
    \<and> ((code_blocks E (content (last (orchestrated_messages st))) = []
           \<or> execution_enabled_agents E = [])
         \<and> loads E (cl (queries st)) = Some d
         \<and> answer d ''instruction_or_question'' = Inr i
         \<and> answer d ''current_evaluation'' = Inr e
         \<and> loads E (cl (Suc (Suc (queries st)))) = None
          \<longrightarrow> (\<exists>st'. turn E cl task st = Brk 363 st'))
    \<and> (turn E cl task st = Brk l st'
          \<longrightarrow> (l = 249 \<or> l = 308 \<or> l = 363)
            \<and> same_memory st st' \<and> checkpoints st' = checkpoints st
            \<and> total_turns st' = Suc (total_turns st)
            \<and> (total_turns st < max_turns \<longrightarrow> step E cl task (AtInner st) = AtOuter st')
            \<and> checkpoints (round_init E task st') = checkpoints st
            \<and> facts (round_init E task st') = facts st
            \<and> plan (round_init E task st') = plan st)"
proof -
  from run_logged [where E = E and cl = cl and task = task and n = n and ?st0.0 = b] assms(2)
  have om: "orchestrated_messages st \<noteq> []" by simp
  from run_never_past_first_stall [OF assms(1), where n = n] assms(2)
  have u: "times_stalled st = 0" "educated_guess_promt st = None" by simp_all
  have a: "\<exists>st'. turn E cl task st =
                Brk (if code_blocks E (content (last (orchestrated_messages st))) \<noteq> []
                          \<and> execution_enabled_agents E \<noteq> []
                     then 249 else 308) st'"
    if "loads E (cl (queries st)) = None"
    using first_parse_failure [where E = E and cl = cl and st = st and task = task] om that by blast
  have b: "\<exists>st'. turn E cl task st = Brk 363 st'"
    if "(code_blocks E (content (last (orchestrated_messages st))) = []
           \<or> execution_enabled_agents E = [])
         \<and> loads E (cl (queries st)) = Some d
         \<and> answer d ''instruction_or_question'' = Inr i
         \<and> answer d ''current_evaluation'' = Inr e
         \<and> loads E (cl (Suc (Suc (queries st)))) = None"
    using second_parse_failure [where E = E and cl = cl and st = st and task = task and d = d and i = i and e = e] om that by simp
  have c: "(l = 249 \<or> l = 308 \<or> l = 363)
            \<and> same_memory st st' \<and> checkpoints st' = checkpoints st
            \<and> total_turns st' = Suc (total_turns st)
            \<and> (total_turns st < max_turns \<longrightarrow> step E cl task (AtInner st) = AtOuter st')
            \<and> checkpoints (round_init E task st') = checkpoints st
            \<and> facts (round_init E task st') = facts st
            \<and> plan (round_init E task st') = plan st"
    if t: "turn E cl task st = Brk l st'"
  proof -
    from unstalled_break [OF u t] have l: "l = 249 \<or> l = 308 \<or> l = 363" .
    from turn_Brk_frame [OF t] l have m: "same_memory st st'"
      and tt: "total_turns st' = Suc (total_turns st)" by simp_all
    from m have f: "checkpoints st' = checkpoints st" "facts st' = facts st" "plan st' = plan st"
      by (simp_all add: same_memory_def)
    from l m tt f t round_init_frame [of E task st'] show ?thesis by simp
  qed
  from a b c show ?thesis by blast
qed

theorem parse_failure_abandons_turn_witness:
  "(\<exists>st'. turn example_env (\<lambda>n. garbage_text) example_task (first_round (\<lambda>n. garbage_text))
        = Brk 308 st'
      \<and> same_memory (first_round (\<lambda>n. garbage_text)) st'
      \<and> checkpoints st' = [])
   \<and> (\<exists>st'. turn example_env second_fails example_task (first_round second_fails) = Brk 363 st'
      \<and> same_memory (first_round second_fails) st'
      \<and> checkpoints st' = []
      \<and> step example_env second_fails example_task (AtInner (first_round second_fails))
          = AtOuter st')"
proof -
  let ?g = "\<lambda>n::nat. garbage_text"
  have nc: "code_blocks example_env (content (last (orchestrated_messages (first_round cl)))) = []"
    for cl
    by (simp add: code_blocks_def example_env_simps)
  note G = parse_failure_abandons_turn [OF bootstrap_example first_round_reached,
      where cl = ?g]
  have "loads example_env (?g (queries (first_round ?g))) = None"
    by (simp add: example_env_simps example_loads_simps)
  with G nc [of ?g]
  obtain st' where t: "turn example_env ?g example_task (first_round ?g) = Brk 308 st'"
    by auto
  from G [where l = 308 and st' = st'] t have "same_memory (first_round ?g) st'"
    and "checkpoints st' = checkpoints (first_round ?g)" by blast+
  with t have g: "\<exists>st'. turn example_env ?g example_task (first_round ?g) = Brk 308 st'
      \<and> same_memory (first_round ?g) st' \<and> checkpoints st' = []"
    by (simp add: first_round_simps)
  note S = parse_failure_abandons_turn [OF bootstrap_example first_round_reached,
      where cl = second_fails]
  have h: "(code_blocks example_env (content (last (orchestrated_messages (first_round second_fails)))) = []
           \<or> execution_enabled_agents example_env = [])
         \<and> loads example_env (second_fails (queries (first_round second_fails))) = Some flat_data
         \<and> answer flat_data ''instruction_or_question'' = Inr (JStr ''Try again.'')
         \<and> answer flat_data ''current_evaluation'' = Inr (JInt 50)
         \<and> loads example_env (second_fails (Suc (Suc (queries (first_round second_fails))))) = None"
    by (simp add: nc example_env_simps example_loads_simps queries_simps
          second_fails_def flat_answers)
  from S [where d = flat_data and i = "JStr ''Try again.''" and e = "JInt 50",
      THEN conjunct2, THEN conjunct1, THEN mp, OF h]
  obtain s where t2: "turn example_env second_fails example_task (first_round second_fails) = Brk 363 s"
    by blast
  from S [where l = 363 and st' = s] t2 have "same_memory (first_round second_fails) s"
    and "checkpoints s = checkpoints (first_round second_fails)"
    and "total_turns (first_round second_fails) < max_turns \<longrightarrow>
         step example_env second_fails example_task (AtInner (first_round second_fails)) = AtOuter s"
    by blast+
  with t2 have "\<exists>st'. turn example_env second_fails example_task (first_round second_fails) = Brk 363 st'
      \<and> same_memory (first_round second_fails) st'
      \<and> checkpoints st' = []
      \<and> step example_env second_fails example_task (AtInner (first_round second_fails))
          = AtOuter st'"
    by (simp add: first_round_simps max_turns_def)
  with g show ?thesis by blast
qed

subsection \<open>C4: the fast path\<close>

text \<open>
  C4. When the last message of the context log holds a block tagged \<^verbatim>\<open>python\<close> or \<^verbatim>\<open>sh\<close> and
  a worker can execute code, the assessment makes one oracle call, in JSON format, on the log
  followed by the prompt whose schema asks for satisfaction, progress and evaluation only;
  and when the turn goes on, the answer acted on names the first execution-capable worker as
  the speaker and holds the fixed instruction, whatever the oracle's object contained. It
  does go on whenever the oracle's text parses to an object.
\<close>

theorem fast_path_forces_executor:
  assumes "orchestrated_messages st \<noteq> []"
    and "code_blocks E (content (last (orchestrated_messages st))) \<noteq> []"
    and "execution_enabled_agents E = a # rest"
  shows "events (state_of (assess E cl task st)) =
           events st @ [Query (orchestrated_messages st @
              [\<lparr>role = User, content = FastStepPrompt task, mname = sender_name E\<rparr>]) True]
    \<and> schema_fields (FastStepPrompt task) =
        [''is_request_satisfied'', ''is_progress_being_made'', ''current_evaluation'']
    \<and> (assess E cl task st = Go data st'
        \<longrightarrow> answer data ''next_speaker'' = Inr (JStr (name a))
          \<and> answer data ''instruction_or_question'' = Inr (JStr ''Please execute the above script.''))
    \<and> (loads E (cl (queries st)) = Some (JObj reply)
        \<longrightarrow> (\<exists>data s. assess E cl task st = Go data s))"
proof -
  have f: "assess E cl task st = fast_path E cl task st"
    using assms by (simp add: assess_def)
  have e: "events (state_of (fast_path E cl task st)) =
           events st @ [Query (orchestrated_messages st @
              [\<lparr>role = User, content = FastStepPrompt task, mname = sender_name E\<rparr>]) True]"
    by (simp add: fast_path_def ask_popped_eq split: option.splits list.splits sum.splits)
  have g: "answer data ''next_speaker'' = Inr (JStr (name a))
          \<and> answer data ''instruction_or_question'' = Inr (JStr ''Please execute the above script.'')"
    if h: "fast_path E cl task st = Go data st'"
  proof -
    from h obtain d where l: "loads E (cl (queries st)) = Some d"
      by (auto simp add: fast_path_def ask_popped_eq split: option.splits)
    with h obtain kvs where d: "d = JObj kvs"
      by (cases d) (auto simp add: fast_path_def ask_popped_eq assms(3))
    from h l d
    have "data = JObj (AList.update ''instruction_or_question''
             (JObj [(''reason'', JStr ''Assigning to an agent that can execute the script.''),
                    (''answer'', JStr ''Please execute the above script.'')])
             (AList.update ''next_speaker''
                (JObj [(''reason'', JStr ''Assigning to an agent that can execute the script.''),
                       (''answer'', JStr (name a))]) kvs))"
      by (simp add: fast_path_def ask_popped_eq assms(3))
    then show ?thesis
      by (simp add: answer_update_other answer_update_same)
  qed
  have p: "\<exists>data s. fast_path E cl task st = Go data s"
    if "loads E (cl (queries st)) = Some (JObj reply)"
    using that by (simp add: fast_path_def ask_popped_eq assms(3))
  show ?thesis using f e g p by simp
qed

theorem fast_path_forces_executor_witness:
  "map_option (\<lambda>d. answer d ''next_speaker'')
      (went (assess code_env (\<lambda>n. done_text) example_task code_state))
     = Some (Inr (JStr ''Runner''))
   \<and> map_option (\<lambda>d. answer d ''instruction_or_question'')
      (went (assess code_env (\<lambda>n. done_text) example_task code_state))
     = Some (Inr (JStr ''Please execute the above script.''))"
proof -
  have h1: "orchestrated_messages code_state \<noteq> []"
    by (simp add: code_state_def)
  have h2: "code_blocks code_env (content (last (orchestrated_messages code_state))) \<noteq> []"
    by (simp add: code_state_def code_env_simps)
  have h3: "execution_enabled_agents code_env = runner # []"
    by (simp add: code_env_simps)
  obtain kvs where k: "done_data = JObj kvs"
    by (simp add: done_data_def)
  have l: "loads code_env ((\<lambda>n. done_text) (queries code_state)) = Some (JObj kvs)"
    by (simp add: code_env_simps example_loads_simps k [symmetric])
  note T = fast_path_forces_executor [OF h1 h2 h3, where cl = "\<lambda>n. done_text"
      and task = example_task and reply = kvs]
  from T l obtain data s where g: "assess code_env (\<lambda>n. done_text) example_task code_state = Go data s"
    by blast
  from T [of data s] g
  have "answer data ''next_speaker'' = Inr (JStr (name runner))
      \<and> answer data ''instruction_or_question'' = Inr (JStr ''Please execute the above script.'')"
    by blast
  with g show ?thesis by (simp add: runner_def)
qed

subsection \<open>C5: the better of two candidates\<close>

text \<open>
  C5. Of the two structured answers of the normal path the second is kept, together with the
  revised plan, exactly when its score is greater than the first's (for integer scores, and
  for any two scores that Python's \<^verbatim>\<open>>\<close> compares); otherwise the first is kept with the
  plan as it was. What is kept is always one of the two answers with its own plan, and the
  plan after a normal-path assessment is the plan that \<^verbatim>\<open>keep_best\<close> chose between the
  current plan and the oracle's revised plan. And the normal path does get there: when the
  last message holds no code to run (or no worker runs code), both structured answers parse
  and hold their instruction and their score, and the scores compare, the assessment ends
  with the second answer and the revised plan if the second score is greater, and with the
  first answer and the plan unchanged if not.
\<close>

theorem keep_best_keeps_higher:
  "(answer data ''current_evaluation'' = Inr (JInt e1)
      \<and> answer data2 ''current_evaluation'' = Inr (JInt e2)
     \<longrightarrow> keep_best data data2 cur_plan new_plan =
           Inr (if e1 < e2 then (data2, new_plan) else (data, cur_plan)))
   \<and> (keep_best data data2 cur_plan new_plan = Inr (best, best_plan)
     \<longrightarrow> (best = data2 \<and> best_plan = new_plan) \<or> (best = data \<and> best_plan = cur_plan))
   \<and> (normal_path E cl task st = Go kept st'
     \<longrightarrow> (\<exists>d d2. loads E (cl (queries st)) = Some d
            \<and> loads E (cl (Suc (Suc (queries st)))) = Some d2
            \<and> keep_best d d2 (plan st) (cl (Suc (queries st))) = Inr (kept, plan st')))
   \<and> (answer data ''current_evaluation'' = Inr v1
      \<and> answer data2 ''current_evaluation'' = Inr v2
      \<and> py_cmp GT v2 v1 = Inr better
     \<longrightarrow> keep_best data data2 cur_plan new_plan =
           Inr (if better then (data2, new_plan) else (data, cur_plan)))
   \<and> (orchestrated_messages st \<noteq> []
      \<and> (code_blocks E (content (last (orchestrated_messages st))) = []
           \<or> execution_enabled_agents E = [])
      \<and> loads E (cl (queries st)) = Some data
      \<and> answer data ''instruction_or_question'' = Inr i1
      \<and> answer data ''current_evaluation'' = Inr v1
      \<and> loads E (cl (Suc (Suc (queries st)))) = Some data2
      \<and> answer data2 ''instruction_or_question'' = Inr i2
      \<and> answer data2 ''current_evaluation'' = Inr v2
      \<and> py_cmp GT v2 v1 = Inr better
     \<longrightarrow> (\<exists>s. assess E cl task st = Go (if better then data2 else data) s
            \<and> plan s = (if better then cl (Suc (queries st)) else plan st)))"
proof -
  have one: "keep_best data data2 cur_plan new_plan =
           Inr (if e1 < e2 then (data2, new_plan) else (data, cur_plan))"
    if "answer data ''current_evaluation'' = Inr (JInt e1)
      \<and> answer data2 ''current_evaluation'' = Inr (JInt e2)"
    using that by (simp add: keep_best_def cmp_int_def)
  have two: "(best = data2 \<and> best_plan = new_plan) \<or> (best = data \<and> best_plan = cur_plan)"
    if "keep_best data data2 cur_plan new_plan = Inr (best, best_plan)"
    using keep_best_cases [OF that] .
  have three: "\<exists>d d2. loads E (cl (queries st)) = Some d
            \<and> loads E (cl (Suc (Suc (queries st)))) = Some d2
            \<and> keep_best d d2 (plan st) (cl (Suc (queries st))) = Inr (kept, plan st')"
    if "normal_path E cl task st = Go kept st'"
    using normal_path_Go [OF that] .
  have four: "keep_best data data2 cur_plan new_plan =
           Inr (if better then (data2, new_plan) else (data, cur_plan))"
    if "answer data ''current_evaluation'' = Inr v1
      \<and> answer data2 ''current_evaluation'' = Inr v2
      \<and> py_cmp GT v2 v1 = Inr better"
    using that by (simp add: keep_best_def)
  have five: "\<exists>s. assess E cl task st = Go (if better then data2 else data) s
            \<and> plan s = (if better then cl (Suc (queries st)) else plan st)"
    if h: "orchestrated_messages st \<noteq> []
      \<and> (code_blocks E (content (last (orchestrated_messages st))) = []
           \<or> execution_enabled_agents E = [])
      \<and> loads E (cl (queries st)) = Some data
      \<and> answer data ''instruction_or_question'' = Inr i1
      \<and> answer data ''current_evaluation'' = Inr v1
      \<and> loads E (cl (Suc (Suc (queries st)))) = Some data2
      \<and> answer data2 ''instruction_or_question'' = Inr i2
      \<and> answer data2 ''current_evaluation'' = Inr v2
      \<and> py_cmp GT v2 v1 = Inr better"
  proof -
    from h have "assess E cl task st = normal_path E cl task st"
      by (auto simp add: assess_def)
    with h normal_path_keeps [of E cl st data i1 v1 data2 i2 v2 better task]
    show ?thesis by simp
  qed
  from one two three four five show ?thesis by blast
qed

theorem keep_best_keeps_higher_witness:
  "keep_best flat_data done_data ''Ask Solver.'' ''Ask Runner.'' = Inr (done_data, ''Ask Runner.'')
   \<and> keep_best done_data flat_data ''Ask Solver.'' ''Ask Runner.'' = Inr (done_data, ''Ask Solver.'')
   \<and> went (assess example_env improving example_task (first_round improving)) = Some done_data
   \<and> plan (first_round improving) = ''Ask Solver.''
   \<and> plan (state_of (assess example_env improving example_task (first_round improving)))
       = ''Ask Runner.''
   \<and> went (assess example_env (\<lambda>n. flat_text) example_task (first_round (\<lambda>n. flat_text)))
       = Some flat_data
   \<and> plan (state_of (assess example_env (\<lambda>n. flat_text) example_task
        (first_round (\<lambda>n. flat_text)))) = plan (first_round (\<lambda>n. flat_text))"
proof -
  have k: "keep_best flat_data done_data ''Ask Solver.'' ''Ask Runner.'' = Inr (done_data, ''Ask Runner.'')
   \<and> keep_best done_data flat_data ''Ask Solver.'' ''Ask Runner.'' = Inr (done_data, ''Ask Solver.'')"
    using keep_best_keeps_higher [where data = flat_data and ?e1.0 = 50 and ?data2.0 = done_data
      and ?e2.0 = 90 and cur_plan = "''Ask Solver.''" and new_plan = "''Ask Runner.''"]
    keep_best_keeps_higher [where data = done_data and ?e1.0 = 90 and ?data2.0 = flat_data
      and ?e2.0 = 50 and cur_plan = "''Ask Solver.''" and new_plan = "''Ask Runner.''"]
    by (simp add: flat_answers done_answers)
  have pl: "plan (first_round cl) = cl 1" for cl
    using round_init_frame [of example_env example_task "booted cl"]
    by (simp add: first_round_def booted_simps)
  have nc: "code_blocks example_env (content (last (orchestrated_messages (first_round cl)))) = []" for cl
    by (simp add: code_blocks_def example_env_simps)
  have hi: "orchestrated_messages (first_round improving) \<noteq> []
      \<and> (code_blocks example_env (content (last (orchestrated_messages (first_round improving)))) = []
           \<or> execution_enabled_agents example_env = [])
      \<and> loads example_env (improving (queries (first_round improving))) = Some flat_data
      \<and> answer flat_data ''instruction_or_question'' = Inr (JStr ''Try again.'')
      \<and> answer flat_data ''current_evaluation'' = Inr (JInt 50)
      \<and> loads example_env (improving (Suc (Suc (queries (first_round improving))))) = Some done_data
      \<and> answer done_data ''instruction_or_question'' = Inr (JStr ''Report the sum.'')
      \<and> answer done_data ''current_evaluation'' = Inr (JInt 90)
      \<and> py_cmp GT (JInt 90) (JInt 50) = Inr True"
    by (simp add: first_round_simps nc queries_simps improving_def example_env_simps
          example_loads_simps flat_answers done_answers cmp_int_def)
  note I = keep_best_keeps_higher [where E = example_env and cl = improving
      and st = "first_round improving" and data = flat_data and ?data2.0 = done_data
      and ?i1.0 = "JStr ''Try again.''" and ?i2.0 = "JStr ''Report the sum.''"
      and ?v1.0 = "JInt 50" and ?v2.0 = "JInt 90" and better = True and task = example_task]
  from I [THEN conjunct2, THEN conjunct2, THEN conjunct2, THEN conjunct2, THEN mp, OF hi]
  obtain s where a: "assess example_env improving example_task (first_round improving)
        = Go done_data s"
    and p: "plan s = improving (Suc (queries (first_round improving)))"
    by auto
  have hf: "orchestrated_messages (first_round (\<lambda>n. flat_text)) \<noteq> []
      \<and> (code_blocks example_env (content (last (orchestrated_messages (first_round (\<lambda>n. flat_text))))) = []
           \<or> execution_enabled_agents example_env = [])
      \<and> loads example_env ((\<lambda>n. flat_text) (queries (first_round (\<lambda>n. flat_text)))) = Some flat_data
      \<and> answer flat_data ''instruction_or_question'' = Inr (JStr ''Try again.'')
      \<and> answer flat_data ''current_evaluation'' = Inr (JInt 50)
      \<and> loads example_env ((\<lambda>n. flat_text) (Suc (Suc (queries (first_round (\<lambda>n. flat_text)))))) = Some flat_data
      \<and> answer flat_data ''instruction_or_question'' = Inr (JStr ''Try again.'')
      \<and> answer flat_data ''current_evaluation'' = Inr (JInt 50)
      \<and> py_cmp GT (JInt 50) (JInt 50) = Inr False"
    by (simp add: first_round_simps nc example_env_simps
          example_loads_simps flat_answers cmp_int_def)
  note F = keep_best_keeps_higher [where E = example_env and cl = "\<lambda>n. flat_text"
      and st = "first_round (\<lambda>n. flat_text)" and data = flat_data and ?data2.0 = flat_data
      and ?i1.0 = "JStr ''Try again.''" and ?i2.0 = "JStr ''Try again.''"
      and ?v1.0 = "JInt 50" and ?v2.0 = "JInt 50" and better = False and task = example_task]
  from F [THEN conjunct2, THEN conjunct2, THEN conjunct2, THEN conjunct2, THEN mp, OF hf]
  obtain s' where a': "assess example_env (\<lambda>n. flat_text) example_task (first_round (\<lambda>n. flat_text))
        = Go flat_data s'"
    and p': "plan s' = plan (first_round (\<lambda>n. flat_text))"
    by auto
  from k a p a' p' show ?thesis
    by (simp add: queries_simps improving_def pl)
qed

subsection \<open>C6: after a full re-plan\<close>

text \<open>
  C6. A turn that ends at the \<^verbatim>\<open>break\<close> after the full re-plan (line 474) leaves the
  checkpoint log empty and \<^verbatim>\<open>times_stalled\<close> at the value the trend test gave it, one more
  than before the turn. No turn lowers \<^verbatim>\<open>times_stalled\<close>: a turn leaves it alone or adds
  one, and it adds one only when the log with the checkpoint of the turn has at least three
  checkpoints whose last three scores do not rise; starting a round leaves it alone, and it
  never goes down in a step of the run.
\<close>

theorem replan_clears_log_keeps_counter:
  "(turn E cl task st = Brk 474 st'
      \<longrightarrow> checkpoints st' = [] \<and> times_stalled st' = Suc (times_stalled st))
   \<and> (times_stalled (state_of (turn E cl task st)) = times_stalled st
      \<or> (times_stalled (state_of (turn E cl task st)) = Suc (times_stalled st)
           \<and> (\<exists>s cp. checkpoints s = checkpoints st @ [cp] \<and> 3 \<le> length (checkpoints s)
                 \<and> non_increasing (last_evaluations s) = Inr True)))
   \<and> times_stalled (round_init E task st) = times_stalled st
   \<and> times_stalled (conf_state c) \<le> times_stalled (conf_state (step E cl task c))"
proof -
  have replan: "checkpoints st' = [] \<and> times_stalled st' = Suc (times_stalled st)"
    if t: "turn E cl task st = Brk 474 st'"
  proof -
    let ?st = "st\<lparr>total_turns := Suc (total_turns st)\<rparr>"
    from turn_Brk_cases [OF t] assess_Brk [of E cl task ?st 474 st']
    obtain data s1 s2 where a: "assess E cl task ?st = Go data s1"
      and r: "record_turn data s1 = Go () s2" and g: "stagnation E cl s2 = Brk 474 st'"
      by auto
    from a assess_frame [of E cl task ?st] have "times_stalled s1 = times_stalled st" by simp
    with record_turn_Go [OF r] have s2: "times_stalled s2 = times_stalled st" by auto
    from stagnation_cases [OF g] have "escalate E cl s2 = Brk 474 st'" by auto
    from escalate_cases [OF this] s2 show ?thesis by simp
  qed
  have mono: "times_stalled (conf_state c) \<le> times_stalled (conf_state (step E cl task c))"
  proof (cases c)
    case (AtOuter s)
    then show ?thesis by (simp add: round_init_frame)
  next
    case (AtInner s)
    have "times_stalled s \<le> times_stalled (state_of (turn E cl task s))"
      using turn_times_stalled [of E cl task s] by auto
    with AtInner show ?thesis by (cases "turn E cl task s") auto
  next
    case (Halted out)
    then show ?thesis by simp
  qed
  show ?thesis
    using replan turn_times_stalled [of E cl task st] round_init_frame [of E task st] mono
    by blast
qed

theorem replan_clears_log_keeps_counter_witness:
  "break_line (turn example_env guess_declined example_task stalled_once) = Some 474
   \<and> checkpoints (state_of (turn example_env guess_declined example_task stalled_once)) = []
   \<and> times_stalled (state_of (turn example_env guess_declined example_task stalled_once))
       = Suc (times_stalled stalled_once)"
proof -
  obtain s where t: "turn example_env guess_declined example_task stalled_once = Brk 474 s"
    using guess_declined_turn by blast
  from replan_clears_log_keeps_counter [of example_env guess_declined example_task stalled_once s] t
  have "checkpoints s = [] \<and> times_stalled s = Suc (times_stalled stalled_once)"
    by blast
  with t show ?thesis by simp
qed

subsection \<open>C7: the turn budget\<close>

text \<open>
  C7. The cap is 30. From the end of the bootstrap on, \<^verbatim>\<open>total_turns\<close> is at most 30 in
  every configuration of the run; a turn adds exactly one to it and a step of the run at most
  one; and the run
  reaches its end: some number of steps leads to the halted configuration that holds the
  result of \<^verbatim>\<open>run_chat\<close>.
\<close>

theorem total_turns_never_exceeds_cap:
  assumes "bootstrap E cl messages st = Inr (task, st0)"
  shows "max_turns = 30
    \<and> total_turns (conf_state ((step E cl task ^^ n) (AtOuter st0))) \<le> max_turns
    \<and> total_turns (state_of (turn E cl task s)) = Suc (total_turns s)
    \<and> total_turns (conf_state (step E cl task c)) \<le> Suc (total_turns (conf_state c))
    \<and> (\<exists>k. (step E cl task ^^ k) (AtOuter st0) = Halted (run_chat E (Some cl) messages st))"
proof -
  have z: "total_turns (conf_state (AtOuter st0)) \<le> max_turns"
    using bootstrap_total_turns [OF assms] by simp
  have inc: "total_turns (conf_state (step E cl task c)) \<le> Suc (total_turns (conf_state c))"
  proof (cases c)
    case (AtOuter s)
    then show ?thesis by (simp add: round_init_frame)
  next
    case (AtInner s)
    have "total_turns (state_of (turn E cl task s)) = Suc (total_turns s)"
      by (rule turn_total_turns)
    with AtInner show ?thesis by (cases "turn E cl task s") auto
  next
    case (Halted out)
    then show ?thesis by simp
  qed
  have r: "run_chat E (Some cl) messages st = main_loop E cl task (AtOuter st0)"
    by (simp add: run_chat_def assms)
  show ?thesis
    using steps_total_turns [OF z] inc main_loop_steps [of E cl task "AtOuter st0"] r
      turn_total_turns [of E cl task s]
    by (simp add: max_turns_def)
qed

theorem total_turns_never_exceeds_cap_witness:
  "total_turns (conf_state ((step example_env (\<lambda>n. done_text) example_task ^^ 2)
      (AtOuter (booted (\<lambda>n. done_text))))) \<le> max_turns
   \<and> (\<exists>k. (step example_env (\<lambda>n. done_text) example_task ^^ k) (AtOuter (booted (\<lambda>n. done_text)))
         = Halted (run_chat example_env (Some (\<lambda>n. done_text)) example_messages fresh))"
proof -
  have b: "bootstrap example_env (\<lambda>n. done_text) example_messages fresh
      = Inr (example_task, booted (\<lambda>n. done_text))"
    by (rule bootstrap_example)
  from total_turns_never_exceeds_cap [OF b, where n = 2] show ?thesis by blast
qed

subsection \<open>C8: the result when the budget runs out\<close>

text \<open>
  C8. When the outer loop finds the budget used up, \<^verbatim>\<open>run_chat\<close> returns \<^verbatim>\<open>(True, "TERMINATE")\<close>,
  the value it returns when a turn ends by \<^verbatim>\<open>return\<close> (the request satisfied, or an
  educated guess confirmed); every value the main loop returns is this one. In the example
  run that follows no answer of the oracle parses: the thirty turns are used up with no checkpoint
  recorded, and the result is \<^verbatim>\<open>(True, "TERMINATE")\<close>.
\<close>

theorem budget_exhaustion_reports_success:
  "(max_turns \<le> total_turns st
      \<longrightarrow> main_loop E cl task (AtOuter st) = Returned True (Some ''TERMINATE'') st)
   \<and> (total_turns st < max_turns \<and> turn E cl task st = Ret st'
      \<longrightarrow> main_loop E cl task (AtInner st) = Returned True (Some ''TERMINATE'') st')
   \<and> (main_loop E cl task (AtOuter st) = Returned b r s
      \<longrightarrow> b \<and> r = Some ''TERMINATE'')"
proof -
  have exhausted: "main_loop E cl task (AtOuter st) = Returned True (Some ''TERMINATE'') st"
    if "max_turns \<le> total_turns st"
    using that by simp
  have satisfied: "main_loop E cl task (AtInner st) = Returned True (Some ''TERMINATE'') st'"
    if "total_turns st < max_turns \<and> turn E cl task st = Ret st'"
    using that by simp
  have gen: "b \<and> r = Some ''TERMINATE''"
    if "main_loop E cl task c = Returned b r s" and "\<And>out. c \<noteq> Halted out" for c
    using that
  proof (induction E cl task c rule: main_loop.induct)
    case (1 E cl task out)
    then show ?case by blast
  next
    case (2 E cl task st)
    show ?case
    proof (cases "total_turns st < max_turns")
      case True
      with 2 show ?thesis by simp
    next
      case False
      with 2(2) show ?thesis by simp
    qed
  next
    case (3 E cl task st)
    show ?case
    proof (cases "total_turns st < max_turns")
      case True
      show ?thesis
      proof (cases "turn E cl task st")
        case (Go u x)
        with 3 True show ?thesis by simp
      next
        case (Brk l x)
        with 3 True show ?thesis by simp
      next
        case (Ret x)
        with 3(2) True show ?thesis by simp
      next
        case (Err e x)
        with 3(2) True show ?thesis by simp
      qed
    next
      case False
      with 3 show ?thesis by simp
    qed
  qed
  have every: "b \<and> r = Some ''TERMINATE''"
    if "main_loop E cl task (AtOuter st) = Returned b r s"
    using gen [OF that] by simp
  show ?thesis using exhausted satisfied every by blast
qed

theorem budget_exhaustion_reports_success_witness:
  "run_chat example_env (Some (\<lambda>n. garbage_text)) example_messages fresh
     = Returned True (Some ''TERMINATE'')
         (final_state (run_chat example_env (Some (\<lambda>n. garbage_text)) example_messages fresh))
   \<and> total_turns (final_state
        (run_chat example_env (Some (\<lambda>n. garbage_text)) example_messages fresh)) = 30
   \<and> checkpoints (final_state
        (run_chat example_env (Some (\<lambda>n. garbage_text)) example_messages fresh)) = []
   \<and> main_loop example_env (\<lambda>n. garbage_text) example_task
        (AtOuter (final_state
           (run_chat example_env (Some (\<lambda>n. garbage_text)) example_messages fresh)))
       = run_chat example_env (Some (\<lambda>n. garbage_text)) example_messages fresh
   \<and> main_loop example_env (\<lambda>n. done_text) example_task (AtInner (first_round (\<lambda>n. done_text)))
       = Returned True (Some ''TERMINATE'')
           (state_of (turn example_env (\<lambda>n. done_text) example_task (first_round (\<lambda>n. done_text))))"
proof -
  let ?g = "\<lambda>n::nat. garbage_text"
  let ?d = "\<lambda>n::nat. done_text"
  obtain s where r: "run_chat example_env (Some ?g) example_messages fresh
      = Returned True (Some ''TERMINATE'') s"
    and f: "total_turns s = 30" "checkpoints s = []"
    using garbage_run by blast
  have m: "main_loop example_env ?g example_task (AtOuter (booted ?g))
      = Returned True (Some ''TERMINATE'') s"
    using r by (simp add: run_chat_def bootstrap_example del: main_loop.simps)
  from budget_exhaustion_reports_success [of "booted ?g" example_env ?g example_task _ True
      "Some ''TERMINATE''" s] m
  have every: "True \<and> Some ''TERMINATE'' = Some ''TERMINATE''" by blast
  from f have "max_turns \<le> total_turns s" by (simp add: max_turns_def)
  with budget_exhaustion_reports_success [of s example_env ?g example_task]
  have exhausted: "main_loop example_env ?g example_task (AtOuter s)
      = Returned True (Some ''TERMINATE'') s"
    by blast
  obtain s' where t: "turn example_env ?d example_task (first_round ?d) = Ret s'"
    using satisfied_turn [OF first_round_simps(5) [of ?d] example_loads_simps(3) done_answers,
        of example_task]
    by blast
  have "total_turns (first_round ?d) < max_turns"
    by (simp add: first_round_simps max_turns_def)
  with t budget_exhaustion_reports_success [of "first_round ?d" example_env ?d example_task s']
  have satisfied: "main_loop example_env ?d example_task (AtInner (first_round ?d))
      = Returned True (Some ''TERMINATE'') s'"
    by blast
  show ?thesis
    using every exhausted satisfied by (simp add: r f t del: main_loop.simps)
qed

subsection \<open>C9: a speaker who is not on the team\<close>

text \<open>
  C9. When the \<^verbatim>\<open>next_speaker\<close> answer equals no worker's name, the delegation step sends
  the instruction to every worker silently, appends it to the context log as an assistant
  message, and goes on to the next turn: no worker is asked for a reply, no reply is
  appended to the log, nothing is raised.
\<close>

theorem unknown_speaker_no_delegation:
  assumes "answer data ''instruction_or_question'' = Inr instruction"
    and "answer data ''next_speaker'' = Inr speaker"
    and "list_all (\<lambda>a. JStr (name a) \<noteq> speaker) (agents E)"
  shows "delegate E data st =
     Go () (st\<lparr>events := events st @
                 map (\<lambda>(i, a). Send \<lparr>role = User,
                                     content = Val (if instruction = JNull then JStr [] else instruction),
                                     mname = self_name E\<rparr> i True)
                     (enumerate 0 (agents E)),
               orchestrated_messages := orchestrated_messages st @
                 [\<lparr>role = Assistant,
                   content = Val (if instruction = JNull then JStr [] else instruction),
                   mname = self_name E\<rparr>]\<rparr>)"
proof -
  have n: "list_all (\<lambda>(i, a). JStr (name a) \<noteq> speaker) (enumerate 0 (agents E))"
    using assms(3) by (simp add: list_all_enumerate)
  show ?thesis
    by (simp add: delegate_def assms(1,2) Let_def broadcast_def
          sends_all_silent [OF n] find_speaker_None [OF n])
qed

theorem unknown_speaker_no_delegation_witness:
  "delegate example_env stranger_data fresh =
     Go () (fresh\<lparr>events :=
                   [Send \<lparr>role = User, content = Val (JStr ''Check the sum.''),
                          mname = ''orchestrator''\<rparr> 0 True],
                 orchestrated_messages :=
                   [\<lparr>role = Assistant, content = Val (JStr ''Check the sum.''),
                     mname = ''orchestrator''\<rparr>]\<rparr>)"
proof -
  have i: "answer stranger_data ''instruction_or_question'' = Inr (JStr ''Check the sum.'')"
    by (simp add: answer_def stranger_data_def)
  have n: "answer stranger_data ''next_speaker'' = Inr (JStr ''Nobody'')"
    by (simp add: answer_def stranger_data_def)
  have a: "list_all (\<lambda>a. JStr (name a) \<noteq> JStr ''Nobody'') (agents example_env)"
    by (simp add: example_env_simps solver_def)
  show ?thesis
    using unknown_speaker_no_delegation [OF i n a, of fresh]
    by (simp add: example_env_simps fresh_def)
qed

subsection \<open>C10: no client\<close>

text \<open>
  C10. Without an oracle client \<^verbatim>\<open>run_chat\<close> returns \<^verbatim>\<open>(False, None)\<close> at once: the state
  it returns, which holds the checkpoints, the context log and the trace of every oracle
  call and every message sent, is the state it was given.
\<close>

theorem run_chat_without_client:
  "run_chat E None messages st = Returned False None st"
  by (simp add: run_chat_def)


end
